theory Spec2Isabelle
  imports Complex_Main "HOL-Library.AList"
begin

section \<open>Classy Portfolio: the portfolio builder and the rowspan flattener\<close>

text \<open>
  A shallow embedding of \<^verbatim>\<open>src/fava_classy_portfolio/__init__.py\<close>.
  Python exceptions are values of the type \<open>error\<close>; a function that can raise returns
  \<open>error + 'a\<close>, with \<open>Inl\<close> for the exception.
\<close>

datatype error =
  KeyError | TypeError | AttributeError | IndexError | ZeroDivisionError | FavaAPIError

subsection \<open>Account nodes\<close>

text \<open>
  A \<^verbatim>\<open>TreeNode\<close> is used through its \<^verbatim>\<open>name\<close> and its \<^verbatim>\<open>balance\<close>, a dictionary
  whose keys are pairs (currency, cost), the cost being \<^verbatim>\<open>None\<close> or a tuple whose
  second component is the cost currency.  Decimal numbers are exact rationals here.
\<close>

type_synonym currency = string

type_synonym cost = "rat \<times> currency"

type_synonym balance_key = "currency \<times> cost option"

record node =
  name :: string
  balance :: "(balance_key \<times> rat) list"

subsection \<open>\<^verbatim>\<open>node_commodity\<close>\<close>

text \<open>The loop \<^verbatim>\<open>for currency in currencies\<close> with its early return.\<close>

fun scan_currencies :: "currency \<Rightarrow> currency list \<Rightarrow> string" where
  "scan_currencies ref_currency [] = ref_currency"
| "scan_currencies ref_currency (currency # rest) =
     (if currency \<noteq> ref_currency then ''mixed_commodities''
      else scan_currencies ref_currency rest)"

definition node_commodity :: "node \<Rightarrow> string" where
  "node_commodity nd =
     (if length (balance nd) \<noteq> 0
      then (let currencies = map (\<lambda>(cost, _). fst cost) (balance nd);
                ref_currency = hd currencies
            in scan_currencies ref_currency currencies)
      else '''')"

subsection \<open>Sequencing of computations that can raise\<close>

definition bind_err :: "error + 'a \<Rightarrow> ('a \<Rightarrow> error + 'b) \<Rightarrow> error + 'b" where
  "bind_err m f = (case m of Inl e \<Rightarrow> Inl e | Inr x \<Rightarrow> f x)"

text \<open>A \<^verbatim>\<open>for\<close> loop over a list that threads a state and stops at the first exception.\<close>

fun for_each :: "('a \<Rightarrow> 's \<Rightarrow> error + 's) \<Rightarrow> 'a list \<Rightarrow> 's \<Rightarrow> error + 's" where
  "for_each body [] s = Inr s"
| "for_each body (x # xs) s = bind_err (body x s) (for_each body xs)"

subsection \<open>Values and dictionaries of the portfolio tree\<close>

text \<open>
  The values the code stores: \<^verbatim>\<open>None\<close>, a Decimal, a date, a reference to a dictionary
  object of the store (used by the flattening pass), and the tuple
  \<^verbatim>\<open>(value, {"rowspan": n})\<close> that the flattening pass builds.
\<close>

datatype pyval = PNone | PNum rat | PDate int | PRef nat | PCell pyval nat

text \<open>
  The portfolio tree of \<^verbatim>\<open>_portfolio_data\<close> is a dictionary of dictionaries with string
  keys.  While it is built, no dictionary of it is reachable in two ways, so it is a value
  here: a dictionary is an association list in insertion order, \<open>AList.update\<close> being
  \<^verbatim>\<open>d[k] = v\<close>.
\<close>

datatype tree = Leaf pyval | Dict "(string \<times> tree) list"

abbreviation ZERO :: tree where
  "ZERO \<equiv> Leaf (PNum 0)"

fun getitem :: "tree \<Rightarrow> string \<Rightarrow> error + tree" where
  "getitem (Dict d) k = (case map_of d k of None \<Rightarrow> Inl KeyError | Some v \<Rightarrow> Inr v)"
| "getitem (Leaf v) k = Inl TypeError"

fun setitem :: "string \<Rightarrow> tree \<Rightarrow> tree \<Rightarrow> error + tree" where
  "setitem k v (Dict d) = Inr (Dict (AList.update k v d))"
| "setitem k v (Leaf x) = Inl TypeError"

fun contains :: "tree \<Rightarrow> string \<Rightarrow> error + bool" where
  "contains (Dict d) k = Inr (k \<in> fst ` set d)"
| "contains (Leaf v) k = Inl TypeError"

text \<open>\<^verbatim>\<open>d[k] += x\<close> on Decimals.\<close>

definition iadd :: "string \<Rightarrow> rat \<Rightarrow> tree \<Rightarrow> error + tree" where
  "iadd k x t =
     bind_err (getitem t k) (\<lambda>old.
       case old of Leaf (PNum y) \<Rightarrow> setitem k (Leaf (PNum (y + x))) t
                 | _ \<Rightarrow> Inl TypeError)"

text \<open>
  \<open>at_path [k1, ..., kn] f t\<close> is the in-place change \<open>f\<close> of the dictionary
  \<^verbatim>\<open>t[k1]...[kn]\<close>; a missing key on the way raises \<^verbatim>\<open>KeyError\<close>.
\<close>

fun at_path :: "string list \<Rightarrow> (tree \<Rightarrow> error + tree) \<Rightarrow> tree \<Rightarrow> error + tree" where
  "at_path [] f t = f t"
| "at_path (k # ks) f t =
     bind_err (getitem t k) (\<lambda>sub.
     bind_err (at_path ks f sub) (\<lambda>sub'. setitem k sub' t))"

subsection \<open>The ledger, as far as the code reads it\<close>

text \<open>
  The calls into beancount and fava are parameters: the metadata of the commodity
  directives, the cost of a balance (\<^verbatim>\<open>node.balance.reduce(convert.get_cost).items()\<close>),
  \<^verbatim>\<open>convert.convert_amount\<close> to the operating currency at the date of the request,
  \<^verbatim>\<open>prices.get_latest_price\<close>, and the market value of a balance in the operating
  currency (\<^verbatim>\<open>node.balance.reduce(convert.convert_position, ...).get(..., ZERO)\<close>).
\<close>

record env =
  operating_currency :: currency
  commodity_dict :: "string \<Rightarrow> (string \<Rightarrow> string option) option"
  get_cost :: "node \<Rightarrow> (currency \<times> rat) list"
  convert_amount :: "rat \<times> currency \<Rightarrow> rat \<times> currency"
  get_latest_price :: "currency \<times> currency \<Rightarrow> int option \<times> rat option"
  market_value :: "node \<Rightarrow> rat"

text \<open>\<^verbatim>\<open>_convert_cost\<close>: the first item of the cost, converted; the pair (number, currency).\<close>

definition convert_cost :: "env \<Rightarrow> node \<Rightarrow> error + (rat \<times> currency)" where
  "convert_cost env nd =
     (case get_cost env nd of
        [] \<Rightarrow> Inl IndexError
      | (cur, num) # _ \<Rightarrow> Inr (convert_amount env (num, cur)))"

text \<open>\<^verbatim>\<open>_account_latest_price\<close>\<close>

definition account_latest_price :: "env \<Rightarrow> node \<Rightarrow> error + (int option \<times> rat option) option" where
  "account_latest_price env nd =
     (case map fst (balance nd) of
        [] \<Rightarrow> Inl IndexError
      | quote_price # _ \<Rightarrow>
          (case snd quote_price of
             None \<Rightarrow> Inr None
           | Some cost \<Rightarrow>
               (let base = fst quote_price; currency = snd cost
                in Inr (Some (get_latest_price env (currency, base))))))"

text \<open>\<^verbatim>\<open>_asset_info\<close>: market value, unrealized gain/loss and its percentage.\<close>

definition asset_info :: "env \<Rightarrow> node \<Rightarrow> error + (rat \<times> rat \<times> rat)" where
  "asset_info env nd =
     bind_err (convert_cost env nd) (\<lambda>account_cost_conv.
       let account_cost = fst account_cost_conv;
           account_balance_market_value = market_value env nd;
           account_income_gain_loss_unrealized = account_cost - account_balance_market_value
       in if account_cost = 0 then Inl ZeroDivisionError
          else Inr (account_balance_market_value,
                    account_income_gain_loss_unrealized,
                    ((account_income_gain_loss_unrealized * (- 1)) / account_cost) * 100))"

subsection \<open>\<^verbatim>\<open>_portfolio_data\<close>: building the tree\<close>

definition types :: "(string \<times> string) list" where
  "types =
    [(''portfolio_total'', ''<class 'decimal.Decimal'>''),
     (''asset_classes'', ''<class 'dict'>''),
     (''portfolio_allocation'', ''<class 'fava_classy_portfolio.DecimalPercent'>''),
     (''asset_class_total'', ''<class 'decimal.Decimal'>''),
     (''asset_subclasses'', ''<class 'dict'>''),
     (''asset_class_allocation'', ''<class 'fava_classy_portfolio.DecimalPercent'>''),
     (''asset_subclass_total'', ''<class 'decimal.Decimal'>''),
     (''accounts'', ''<class 'fava_classy_portfolio.AccountsDict'>''),
     (''asset_subclass_allocation'', ''<class 'fava_classy_portfolio.DecimalPercent'>''),
     (''balance_market_value'', ''<class 'decimal.Decimal'>''),
     (''income_gain_loss'', ''<class 'fava_classy_portfolio.DecimalIncomeGainLoss'>''),
     (''gain_loss_percentage'', ''<class 'fava_classy_portfolio.DecimalPercentGainLoss'>''),
     (''latest_price_date'', ''<class 'datetime.date'>'')]"

definition meta_or :: "env \<Rightarrow> string \<Rightarrow> string \<Rightarrow> string \<Rightarrow> string" where
  "meta_or env commodity key dflt =
     (case commodity_dict env commodity of
        None \<Rightarrow> dflt
      | Some meta \<Rightarrow> (case meta key of None \<Rightarrow> dflt | Some v \<Rightarrow> v))"

text \<open>Lines 254 to 279: the class and the subclass are created on first encounter.\<close>

definition new_class :: tree where
  "new_class = Dict [(''portfolio_allocation'', ZERO), (''asset_class_total'', ZERO),
                     (''asset_subclasses'', Dict [])]"

definition new_subclass :: tree where
  "new_subclass = Dict [(''asset_subclass_total'', ZERO), (''portfolio_allocation'', ZERO),
                        (''asset_subclass_asset_class_allocation'', ZERO),
                        (''accounts'', Dict [])]"

definition ensure_class :: "string \<Rightarrow> tree \<Rightarrow> error + tree" where
  "ensure_class asset_class portfolio_tree =
     bind_err (getitem portfolio_tree ''asset_classes'') (\<lambda>classes.
     bind_err (contains classes asset_class) (\<lambda>present.
       if \<not> present
       then at_path [''asset_classes''] (setitem asset_class new_class) portfolio_tree
       else Inr portfolio_tree))"

definition ensure_subclass :: "string \<Rightarrow> string \<Rightarrow> tree \<Rightarrow> error + tree" where
  "ensure_subclass asset_class asset_subclass portfolio_tree =
     bind_err (getitem portfolio_tree ''asset_classes'') (\<lambda>classes.
     bind_err (getitem classes asset_class) (\<lambda>class_dict.
     bind_err (getitem class_dict ''asset_subclasses'') (\<lambda>subclasses.
     bind_err (contains subclasses asset_subclass) (\<lambda>present.
       if \<not> present
       then at_path [''asset_classes'', asset_class, ''asset_subclasses'']
              (setitem asset_subclass new_subclass) portfolio_tree
       else Inr portfolio_tree))))"

text \<open>
  Lines 290 to 317: the record of an account whose cost is in the operating currency, with
  the market value that is added to the totals.
\<close>

definition account_record :: "env \<Rightarrow> node \<Rightarrow> rat \<Rightarrow> error + (rat \<times> tree)" where
  "account_record env nd account_cost =
     bind_err (account_latest_price env nd) (\<lambda>latest_price.
       if latest_price = None \<or> fst (the latest_price) = None
       then Inr (account_cost,
                 Dict [(''balance_market_value'', Leaf (PNum account_cost)),
                       (''income_gain_loss'', Leaf PNone),
                       (''gain_loss_percentage'', Leaf PNone),
                       (''latest_price_date'', Leaf PNone)])
       else
         (let latest_price_date = the (fst (the latest_price))
          in bind_err (asset_info env nd) (\<lambda>(account_balance_market_value,
                 account_income_gain_loss_unrealized,
                 account_gain_loss_unrealized_percentage).
               Inr (account_balance_market_value,
                    Dict [(''balance_market_value'', Leaf (PNum account_balance_market_value)),
                          (''income_gain_loss'', Leaf (PNum account_income_gain_loss_unrealized)),
                          (''gain_loss_percentage'',
                             Leaf (PNum account_gain_loss_unrealized_percentage)),
                          (''latest_price_date'', Leaf (PDate latest_price_date))]))))"

text \<open>Lines 319 to 331: the record is stored and the three totals are accumulated.\<close>

definition accumulate :: "string \<Rightarrow> string \<Rightarrow> string \<Rightarrow> rat \<Rightarrow> tree \<Rightarrow> tree \<Rightarrow> error + tree" where
  "accumulate asset_class asset_subclass account_name account_balance_market_value
       account_data portfolio_tree =
     bind_err (at_path [''asset_classes'', asset_class, ''asset_subclasses'', asset_subclass,
                   ''accounts''] (setitem account_name account_data) portfolio_tree) (\<lambda>t1.
     bind_err (if account_balance_market_value \<noteq> 0
               then iadd ''portfolio_total'' account_balance_market_value t1
               else Inr t1) (\<lambda>t2.
     bind_err (at_path [''asset_classes'', asset_class]
                 (iadd ''asset_class_total'' account_balance_market_value) t2) (\<lambda>t3.
       at_path [''asset_classes'', asset_class, ''asset_subclasses'', asset_subclass]
         (iadd ''asset_subclass_total'' account_balance_market_value) t3)))"

definition operating_currency_message :: "env \<Rightarrow> string \<Rightarrow> string" where
  "operating_currency_message env account_name =
     ''account '' @ account_name @ '' has balances not in operating currency ''
       @ operating_currency env"

text \<open>
  The body of the loop over the nodes (lines 236 to 348); the state is the tree and the
  list \<^verbatim>\<open>errors\<close>.  \<^verbatim>\<open>account_cost_node\<close> is the dictionary with the one entry
  \<^verbatim>\<open>{currency: number}\<close>.
\<close>

definition process_node :: "env \<Rightarrow> node \<Rightarrow> tree \<times> string list \<Rightarrow> error + (tree \<times> string list)" where
  "process_node env nd st =
     (case st of (portfolio_tree, errors) \<Rightarrow>
      if balance nd = [] then Inr (portfolio_tree, errors)
      else
       (let account_name = name nd;
            commodity = node_commodity nd;
            asset_class = meta_or env commodity ''asset-class'' ''noclass'';
            asset_subclass = meta_or env commodity ''asset-subclass'' ''nosubclass''
        in
        bind_err (ensure_class asset_class portfolio_tree) (\<lambda>t1.
        bind_err (ensure_subclass asset_class asset_subclass t1) (\<lambda>t2.
        bind_err (convert_cost env nd) (\<lambda>account_cost_conv.
          let account_cost_node = [(snd account_cost_conv, fst account_cost_conv)]
          in
          case map_of account_cost_node (operating_currency env) of
            Some account_cost \<Rightarrow>
              bind_err (account_record env nd account_cost) (\<lambda>(account_balance_market_value,
                  account_data).
              bind_err (accumulate asset_class asset_subclass account_name
                          account_balance_market_value account_data t2) (\<lambda>t3.
                Inr (t3, errors)))
          | None \<Rightarrow>
              if length account_cost_node = 0
              then
                bind_err (at_path [''asset_classes'', asset_class, ''asset_subclasses'',
                              asset_subclass, ''accounts'']
                            (setitem account_name
                               (Dict [(''balance_market_value'', ZERO),
                                      (''income_gain_loss'', ZERO),
                                      (''gain_loss_percentage'', ZERO),
                                      (''latest_price_date'', Leaf PNone)])) t2) (\<lambda>t3.
                  Inr (t3, errors))
              else Inr (t2, errors @ [operating_currency_message env account_name]))))))"

subsection \<open>\<^verbatim>\<open>_portfolio_data\<close>: the allocations\<close>

text \<open>
  \<^verbatim>\<open>round(x, 2)\<close> of a Decimal rounds half to even at two decimal places.
\<close>

definition round_half_even :: "rat \<Rightarrow> int" where
  "round_half_even x =
     (let f = \<lfloor>x\<rfloor>; d = x - of_int f
      in if d < 1 / 2 then f else if 1 / 2 < d then f + 1
         else if even f then f else f + 1)"

definition round2 :: "rat \<Rightarrow> rat" where
  "round2 x = of_int (round_half_even (x * 100)) / 100"

text \<open>
  The expression \<^verbatim>\<open>ZERO if total == ZERO else round((part / total) * 100, 2)\<close>, written
  out at each of the six places of lines 355 to 439.
\<close>

definition allocation :: "tree \<Rightarrow> tree \<Rightarrow> error + tree" where
  "allocation part whole =
     (if whole = ZERO then Inr ZERO
      else case (part, whole) of
             (Leaf (PNum n), Leaf (PNum d)) \<Rightarrow> Inr (Leaf (PNum (round2 ((n / d) * 100))))
           | _ \<Rightarrow> Inl TypeError)"

text \<open>
  A loop \<^verbatim>\<open>for key in d: ... d[key] ...\<close> whose body changes the dictionary \<^verbatim>\<open>d[key]\<close> in
  place: every entry of the association list is visited once, in order.
\<close>

fun for_values :: "(tree \<Rightarrow> error + tree) \<Rightarrow> (string \<times> tree) list \<Rightarrow> error + (string \<times> tree) list" where
  "for_values body [] = Inr []"
| "for_values body ((k, v) # rest) =
     bind_err (body v) (\<lambda>v'.
     bind_err (for_values body rest) (\<lambda>rest'. Inr ((k, v') # rest')))"

definition for_dict :: "(tree \<Rightarrow> error + tree) \<Rightarrow> tree \<Rightarrow> error + tree" where
  "for_dict body t =
     (case t of Dict d \<Rightarrow> bind_err (for_values body d) (\<lambda>d'. Inr (Dict d'))
              | Leaf v \<Rightarrow> Inl TypeError)"

definition allocate_account :: "tree \<Rightarrow> tree \<Rightarrow> tree \<Rightarrow> tree \<Rightarrow> error + tree" where
  "allocate_account portfolio_total asset_class_total asset_subclass_total account_dict =
     bind_err (getitem account_dict ''balance_market_value'') (\<lambda>v1.
     bind_err (allocation v1 portfolio_total) (\<lambda>a1.
     bind_err (setitem ''portfolio_allocation'' a1 account_dict) (\<lambda>d1.
     bind_err (getitem d1 ''balance_market_value'') (\<lambda>v2.
     bind_err (allocation v2 asset_class_total) (\<lambda>a2.
     bind_err (setitem ''asset_class_allocation'' a2 d1) (\<lambda>d2.
     bind_err (getitem d2 ''balance_market_value'') (\<lambda>v3.
     bind_err (allocation v3 asset_subclass_total) (\<lambda>a3.
       setitem ''asset_subclass_allocation'' a3 d2))))))))"

definition allocate_subclass :: "tree \<Rightarrow> tree \<Rightarrow> tree \<Rightarrow> error + tree" where
  "allocate_subclass portfolio_total asset_class_total asset_subclass_dict =
     bind_err (getitem asset_subclass_dict ''asset_subclass_total'') (\<lambda>v1.
     bind_err (allocation v1 portfolio_total) (\<lambda>a1.
     bind_err (setitem ''portfolio_allocation'' a1 asset_subclass_dict) (\<lambda>d1.
     bind_err (getitem d1 ''asset_subclass_total'') (\<lambda>v2.
     bind_err (allocation v2 asset_class_total) (\<lambda>a2.
     bind_err (setitem ''asset_class_allocation'' a2 d1) (\<lambda>d2.
     bind_err (getitem d2 ''asset_subclass_total'') (\<lambda>asset_subclass_total.
       at_path [''accounts'']
         (for_dict (allocate_account portfolio_total asset_class_total asset_subclass_total))
         d2)))))))"

definition allocate_class :: "tree \<Rightarrow> tree \<Rightarrow> error + tree" where
  "allocate_class portfolio_total asset_class_dict =
     bind_err (getitem asset_class_dict ''asset_class_total'') (\<lambda>v1.
     bind_err (allocation v1 portfolio_total) (\<lambda>a1.
     bind_err (setitem ''portfolio_allocation'' a1 asset_class_dict) (\<lambda>d1.
     bind_err (getitem d1 ''asset_class_total'') (\<lambda>asset_class_total.
       at_path [''asset_subclasses'']
         (for_dict (allocate_subclass portfolio_total asset_class_total)) d1))))"

definition allocations :: "tree \<Rightarrow> error + tree" where
  "allocations portfolio_tree =
     bind_err (getitem portfolio_tree ''portfolio_total'') (\<lambda>portfolio_total.
       at_path [''asset_classes''] (for_dict (allocate_class portfolio_total)) portfolio_tree)"

definition portfolio_data :: "env \<Rightarrow> node list \<Rightarrow> error + (tree \<times> (string \<times> string) list \<times> string list)" where
  "portfolio_data env nodes =
     bind_err (for_each (process_node env) nodes
                 (Dict [(''portfolio_total'', ZERO), (''asset_classes'', Dict [])], []))
       (\<lambda>(portfolio_tree, errors).
     bind_err (allocations portfolio_tree) (\<lambda>portfolio_tree'.
       Inr (portfolio_tree', types, errors)))"

subsection \<open>The store of dictionary objects\<close>

text \<open>
  \<^verbatim>\<open>insert_rowspans\<close> writes into dictionaries that are reachable both from its argument
  and from its result, so for it the dictionaries are objects of a store: the store is the
  list of the objects created so far, a reference \<open>PRef a\<close> is an index into it, and a
  new object is appended.  \<open>store\<close> lays out a tree in the store, every dictionary of
  the tree being an object of its own, as \<^verbatim>\<open>_portfolio_data\<close> creates them.
\<close>

type_synonym obj = "(string \<times> pyval) list"

type_synonym heap = "obj list"

fun store :: "tree \<Rightarrow> heap \<Rightarrow> pyval \<times> heap"
  and store_items :: "(string \<times> tree) list \<Rightarrow> heap \<Rightarrow> obj \<times> heap" where
  "store (Leaf v) h = (v, h)"
| "store (Dict d) h = (case store_items d h of (d', h') \<Rightarrow> (PRef (length h'), h' @ [d']))"
| "store_items [] h = ([], h)"
| "store_items ((k, t) # rest) h =
     (case store t h of (v, h1) \<Rightarrow>
      case store_items rest h1 of (rest', h2) \<Rightarrow> ((k, v) # rest', h2))"

text \<open>The dictionary object a value refers to, if it is one.\<close>

definition deref :: "heap \<Rightarrow> pyval \<Rightarrow> obj option" where
  "deref h v = (case v of PRef a \<Rightarrow> (if a < length h then Some (h ! a) else None)
                        | _ \<Rightarrow> None)"

text \<open>\<^verbatim>\<open>v[k]\<close> for a string \<open>k\<close>: a tuple, a number and \<^verbatim>\<open>None\<close> raise \<^verbatim>\<open>TypeError\<close>.\<close>

definition subscript :: "heap \<Rightarrow> pyval \<Rightarrow> string \<Rightarrow> error + pyval" where
  "subscript h v k =
     (case deref h v of
        None \<Rightarrow> Inl TypeError
      | Some d \<Rightarrow> (case map_of d k of None \<Rightarrow> Inl KeyError | Some x \<Rightarrow> Inr x))"

text \<open>\<^verbatim>\<open>v[k] = x\<close> for a string \<open>k\<close>: the object is changed in place.\<close>

definition assign :: "heap \<Rightarrow> pyval \<Rightarrow> string \<Rightarrow> pyval \<Rightarrow> error + heap" where
  "assign h v k x =
     (case v of
        PRef a \<Rightarrow> (if a < length h then Inr (h[a := AList.update k x (h ! a)])
                   else Inl TypeError)
      | _ \<Rightarrow> Inl TypeError)"

text \<open>\<^verbatim>\<open>v[0]\<close>: the first component of a tuple; a dictionary has no key \<^verbatim>\<open>0\<close>.\<close>

definition item0 :: "pyval \<Rightarrow> error + pyval" where
  "item0 v = (case v of PCell x n \<Rightarrow> Inr x | PRef a \<Rightarrow> Inl KeyError | _ \<Rightarrow> Inl TypeError)"

text \<open>\<^verbatim>\<open>value[1]["rowspan"]\<close>\<close>

definition rowspan :: "pyval \<Rightarrow> error + nat" where
  "rowspan v = (case v of PCell x n \<Rightarrow> Inr n | PRef a \<Rightarrow> Inl KeyError | _ \<Rightarrow> Inl TypeError)"

text \<open>\<^verbatim>\<open>data.keys()\<close> and \<^verbatim>\<open>data.values()\<close>\<close>

definition keys_of :: "heap \<Rightarrow> pyval \<Rightarrow> error + string list" where
  "keys_of h v = (case deref h v of None \<Rightarrow> Inl AttributeError | Some d \<Rightarrow> Inr (map fst d))"

definition values_of :: "heap \<Rightarrow> pyval \<Rightarrow> error + pyval list" where
  "values_of h v = (case deref h v of None \<Rightarrow> Inl AttributeError | Some d \<Rightarrow> Inr (map snd d))"

text \<open>A local dictionary that no other object refers to yet.\<close>

definition local_get :: "obj \<Rightarrow> string \<Rightarrow> error + pyval" where
  "local_get d k = (case map_of d k of None \<Rightarrow> Inl KeyError | Some x \<Rightarrow> Inr x)"

subsection \<open>\<^verbatim>\<open>insert_rowspans\<close>\<close>

text \<open>The loop \<^verbatim>\<open>for value in new_data_inner.values(): rowsum += value[1]["rowspan"]\<close>.\<close>

definition sum_rowspans :: "heap \<Rightarrow> pyval \<Rightarrow> error + nat" where
  "sum_rowspans h new_data_inner =
     bind_err (values_of h new_data_inner)
       (\<lambda>vs. for_each (\<lambda>v rowsum. bind_err (rowspan v) (\<lambda>n. Inr (rowsum + n))) vs 0)"

text \<open>
  In the functions below \<open>new_data\<close> is the dictionary the call is building; it becomes
  an object of the store when the call returns it.  \<open>prior\<close> are the names
  \<^verbatim>\<open>coltypes[i][0]\<close> for \<^verbatim>\<open>i < colcount\<close>, and the list of columns that the loop still
  has to visit is \<^verbatim>\<open>coltypes[colcount:]\<close>, so that its tail is
  \<^verbatim>\<open>coltypes[(colcount + 1):]\<close>.
\<close>

text \<open>Lines 499 and 500.\<close>

definition init_rows :: "heap \<Rightarrow> pyval \<Rightarrow> string list \<Rightarrow> error + obj" where
  "init_rows h data keys =
     for_each (\<lambda>key new_data.
         bind_err (subscript h data key) (\<lambda>row. Inr (AList.update key (PCell row 1) new_data)))
       keys []"

text \<open>Lines 529 to 533, for one key.\<close>

definition placeholder :: "pyval \<Rightarrow> string \<Rightarrow> obj \<Rightarrow> string \<Rightarrow> heap \<Rightarrow> error + heap" where
  "placeholder data col new_data key h =
     bind_err (subscript h data key) (\<lambda>row.
     bind_err (subscript h row col) (\<lambda>v.
     bind_err (local_get new_data key) (\<lambda>cell.
     bind_err (item0 cell) (\<lambda>target.
       assign h target col (PCell v 1)))))"

text \<open>Lines 518 to 522, for one earlier column.\<close>

definition backpropagate :: "obj \<Rightarrow> string \<Rightarrow> nat \<Rightarrow> string \<Rightarrow> heap \<Rightarrow> error + heap" where
  "backpropagate new_data key rowsum col h =
     bind_err (local_get new_data key) (\<lambda>cell.
     bind_err (item0 cell) (\<lambda>target.
     bind_err (subscript h target col) (\<lambda>old.
     bind_err (item0 old) (\<lambda>v.
       assign h target col (PCell v rowsum)))))"

text \<open>
  Lines 508 to 524, for one key; \<open>recurse\<close> is the recursive call on the remaining
  columns.
\<close>

definition group_key ::
  "(pyval \<Rightarrow> heap \<Rightarrow> error + (pyval \<times> heap)) \<Rightarrow> string list \<Rightarrow> string \<Rightarrow> pyval \<Rightarrow>
     string \<Rightarrow> obj \<times> heap \<Rightarrow> error + (obj \<times> heap)" where
  "group_key recurse prior col data key st =
     (case st of (new_data, h) \<Rightarrow>
      bind_err (subscript h data key) (\<lambda>row.
      bind_err (subscript h row col) (\<lambda>sub.
      bind_err (recurse sub h) (\<lambda>(new_data_inner, h1).
      bind_err (local_get new_data key) (\<lambda>cell.
      bind_err (item0 cell) (\<lambda>target.
      bind_err (assign h1 target col new_data_inner) (\<lambda>h2.
      bind_err (sum_rowspans h2 new_data_inner) (\<lambda>rowsum.
      bind_err (for_each (backpropagate new_data key rowsum) prior h2) (\<lambda>h3.
      bind_err (local_get new_data key) (\<lambda>cell'.
      bind_err (item0 cell') (\<lambda>row'.
        Inr (AList.update key (PCell row' rowsum) new_data, h3))))))))))))"

text \<open>
  The call with \<^verbatim>\<open>isStart\<close> false, given the loop over its columns: the rows are
  initialised, the loop runs, and \<^verbatim>\<open>new_data\<close> is returned.
\<close>

definition keyed ::
  "(pyval \<Rightarrow> obj \<Rightarrow> heap \<Rightarrow> error + (obj \<times> heap)) \<Rightarrow> pyval \<Rightarrow> heap \<Rightarrow>
     error + (pyval \<times> heap)" where
  "keyed loop data h =
     bind_err (keys_of h data) (\<lambda>keys.
     bind_err (init_rows h data keys) (\<lambda>new_data.
     bind_err (loop data new_data h) (\<lambda>(new_data', h').
       Inr (PRef (length h'), h' @ [new_data']))))"

definition is_group :: "string \<times> string \<Rightarrow> bool" where
  "is_group coltype \<longleftrightarrow>
     snd coltype = ''<class 'dict'>'' \<or>
     snd coltype = ''<class 'fava_classy_portfolio.AccountsDict'>''"

text \<open>The loop of lines 502 to 535 over the columns that remain.\<close>

primrec rows_loop ::
  "(string \<times> string) list \<Rightarrow> string list \<Rightarrow> pyval \<Rightarrow> obj \<Rightarrow> heap \<Rightarrow>
     error + (obj \<times> heap)" where
  "rows_loop [] prior data new_data h = Inr (new_data, h)"
| "rows_loop (coltype # rest) prior data new_data h =
     (if is_group coltype
      then bind_err (keys_of h data) (\<lambda>keys.
             for_each (group_key (keyed (rows_loop rest [])) prior (fst coltype) data) keys
               (new_data, h))
      else bind_err (keys_of h data) (\<lambda>keys.
           bind_err (for_each (placeholder data (fst coltype) new_data) keys h) (\<lambda>h'.
             rows_loop rest (prior @ [fst coltype]) data new_data h')))"

text \<open>Lines 481 to 485, for one earlier column.\<close>

definition backpropagate_start :: "nat \<Rightarrow> string \<Rightarrow> obj \<Rightarrow> error + obj" where
  "backpropagate_start rowsum col new_data =
     bind_err (local_get new_data col) (\<lambda>cell.
     bind_err (item0 cell) (\<lambda>v.
       Inr (AList.update col (PCell v rowsum) new_data)))"

text \<open>The loop of lines 466 to 492.\<close>

fun start_loop ::
  "(string \<times> string) list \<Rightarrow> string list \<Rightarrow> pyval \<Rightarrow> obj \<Rightarrow> heap \<Rightarrow> error + (obj \<times> heap)" where
  "start_loop [] prior data new_data h = Inr (new_data, h)"
| "start_loop (coltype # rest) prior data new_data h =
     (if snd coltype = ''<class 'dict'>''
      then
        bind_err (subscript h data (fst coltype)) (\<lambda>sub.
        bind_err (keyed (rows_loop rest []) sub h) (\<lambda>(new_data_inner, h1).
        bind_err (sum_rowspans h1 new_data_inner) (\<lambda>rowsum.
        bind_err (for_each (backpropagate_start rowsum) prior
                    (AList.update (fst coltype) new_data_inner new_data)) (\<lambda>new_data'.
          Inr (new_data', h1)))))
      else
        bind_err (subscript h data (fst coltype)) (\<lambda>v.
          start_loop rest (prior @ [fst coltype]) data
            (AList.update (fst coltype) (PCell v 1) new_data) h))"

definition insert_rowspans ::
  "pyval \<Rightarrow> (string \<times> string) list \<Rightarrow> bool \<Rightarrow> heap \<Rightarrow> error + (pyval \<times> heap)" where
  "insert_rowspans data coltypes isStart h =
     (if isStart
      then bind_err (start_loop coltypes [] data [] h) (\<lambda>(new_data, h').
             Inr (PRef (length h'), h' @ [new_data]))
      else keyed (rows_loop coltypes []) data h)"

subsection \<open>\<^verbatim>\<open>portfolio_accounts\<close>\<close>

text \<open>
  An entry of the configuration is a pair of a key and a value, the value being a pattern or
  a pair (metadata key, pattern).  The selection of the nodes by a regular expression and
  \<^verbatim>\<open>str.capitalize\<close> are parameters, next to the ledger.
\<close>

datatype option_value = Str string | Pair string string

record selection =
  capitalize :: "string \<Rightarrow> string"
  nodes_by_name :: "string \<Rightarrow> node list"
  nodes_by_metadata :: "string \<Rightarrow> string \<Rightarrow> node list"

type_synonym portfolio = "string \<times> string \<times> pyval \<times> (string \<times> string) list"

text \<open>\<^verbatim>\<open>_account_name_pattern\<close> and \<^verbatim>\<open>_account_metadata_pattern\<close>\<close>

definition account_name_pattern ::
  "env \<Rightarrow> selection \<Rightarrow> string \<Rightarrow>
     error + (string \<times> string \<times> tree \<times> (string \<times> string) list \<times> string list)" where
  "account_name_pattern env sel pattern =
     (let title = capitalize sel pattern;
          subtitle = ''Account names matching: '' @ [CHR 0x27] @ pattern @ [CHR 0x27]
      in bind_err (portfolio_data env (nodes_by_name sel pattern)) (\<lambda>portfolio_data.
           Inr (title, subtitle, portfolio_data)))"

definition account_metadata_pattern ::
  "env \<Rightarrow> selection \<Rightarrow> string \<Rightarrow> string \<Rightarrow>
     error + (string \<times> string \<times> tree \<times> (string \<times> string) list \<times> string list)" where
  "account_metadata_pattern env sel metadata_key pattern =
     (let title = capitalize sel pattern;
          subtitle = ''Accounts with '' @ [CHR 0x27] @ metadata_key @ [CHR 0x27]
                       @ '' metadata matching: '' @ [CHR 0x27] @ pattern @ [CHR 0x27]
      in bind_err (portfolio_data env (nodes_by_metadata sel metadata_key pattern))
           (\<lambda>portfolio_data. Inr (title, subtitle, portfolio_data)))"

text \<open>
  The body of the loop over the configuration (lines 64 to 83): the view of one entry, its
  tree laid out in the store and flattened.
\<close>

definition view ::
  "env \<Rightarrow> selection \<Rightarrow> string \<times> option_value \<Rightarrow> heap \<Rightarrow> error + (portfolio \<times> heap)" where
  "view env sel option h =
     (let opt_key = fst option
      in bind_err
           (if opt_key = ''account_name_pattern''
            then (case snd option of
                    Str pattern \<Rightarrow> account_name_pattern env sel pattern
                  | Pair a b \<Rightarrow> Inl AttributeError)
            else if opt_key = ''account_open_metadata_pattern''
            then (case snd option of
                    Pair metadata_key pattern \<Rightarrow>
                      account_metadata_pattern env sel metadata_key pattern
                  | Str s \<Rightarrow>
                      (if length s < 2 then Inl IndexError
                       else account_metadata_pattern env sel [s ! 0] [s ! 1]))
            else Inl FavaAPIError)
           (\<lambda>(title, subtitle, portfolio_tree, coltypes, errors).
              case store portfolio_tree h of (data, h1) \<Rightarrow>
              bind_err (insert_rowspans data coltypes True h1) (\<lambda>(flat, h2).
                Inr ((title, subtitle, flat, coltypes), h2))))"

text \<open>
  The loop inside \<^verbatim>\<open>try\<close>: an exception leaves the loop, the traceback is printed (the
  third component of the result), and the portfolios collected so far are returned.
\<close>

fun views_loop ::
  "env \<Rightarrow> selection \<Rightarrow> (string \<times> option_value) list \<Rightarrow> portfolio list \<Rightarrow> heap \<Rightarrow>
     portfolio list \<times> heap \<times> error option" where
  "views_loop env sel [] portfolios h = (portfolios, h, None)"
| "views_loop env sel (option # rest) portfolios h =
     (case view env sel option h of
        Inl e \<Rightarrow> (portfolios, h, Some e)
      | Inr (portfolio, h') \<Rightarrow> views_loop env sel rest (portfolios @ [portfolio]) h')"

definition portfolio_accounts ::
  "env \<Rightarrow> selection \<Rightarrow> (string \<times> option_value) list \<Rightarrow>
     portfolio list \<times> heap \<times> error option" where
  "portfolio_accounts env sel config = views_loop env sel config [] []"

section \<open>Vocabulary of the properties\<close>

text \<open>
  Reading a tree: the Decimal at a node (0 where there is none), the entry of a dictionary
  under a key (\<^verbatim>\<open>None\<close> where there is none), the entries of a dictionary in order, and
  the node at the end of a path of keys.
\<close>

definition decimal :: "tree \<Rightarrow> rat" where
  "decimal t = (case t of Leaf (PNum x) \<Rightarrow> x | _ \<Rightarrow> 0)"

definition item :: "string \<Rightarrow> tree \<Rightarrow> tree" where
  "item k t = (case getitem t k of Inr v \<Rightarrow> v | Inl e \<Rightarrow> Leaf PNone)"

definition items :: "tree \<Rightarrow> (string \<times> tree) list" where
  "items t = (case t of Dict d \<Rightarrow> d | Leaf v \<Rightarrow> [])"

fun item_at :: "string list \<Rightarrow> tree \<Rightarrow> tree" where
  "item_at [] t = t"
| "item_at (k # ks) t = item_at ks (item k t)"

text \<open>The specification's \<^verbatim>\<open>pct(n, d) = 0 if d == 0 else round(n/d*100, 2)\<close>.\<close>

definition pct :: "rat \<Rightarrow> rat \<Rightarrow> rat" where
  "pct n d = (if d = 0 then 0 else round2 ((n / d) * 100))"

text \<open>
  The class and the subclass under which an account is filed, what an account adds to the
  totals (the market value of its record when its cost is in the operating currency, and
  nothing otherwise), and an account without a known latest price.
\<close>

definition asset_class_of :: "env \<Rightarrow> node \<Rightarrow> string" where
  "asset_class_of env nd = meta_or env (node_commodity nd) ''asset-class'' ''noclass''"

definition asset_subclass_of :: "env \<Rightarrow> node \<Rightarrow> string" where
  "asset_subclass_of env nd = meta_or env (node_commodity nd) ''asset-subclass'' ''nosubclass''"

definition contribution :: "env \<Rightarrow> node \<Rightarrow> rat" where
  "contribution env nd =
     (if balance nd = [] then 0
      else case convert_cost env nd of
             Inl e \<Rightarrow> 0
           | Inr cc \<Rightarrow>
               if snd cc = operating_currency env
               then (case account_record env nd (fst cc) of Inl e \<Rightarrow> 0 | Inr r \<Rightarrow> fst r)
               else 0)"

definition no_known_price :: "env \<Rightarrow> node \<Rightarrow> bool" where
  "no_known_price env nd \<longleftrightarrow>
     (case account_latest_price env nd of
        Inl e \<Rightarrow> False
      | Inr latest_price \<Rightarrow> latest_price = None \<or> fst (the latest_price) = None)"

section \<open>A typed view of the portfolio tree\<close>

text \<open>
  The trees that \<^verbatim>\<open>_portfolio_data\<close> builds have a fixed shape.  The shape is made
  explicit by records of the totals and the entries at each level, with the dictionaries
  they stand for: \<open>enc_tree\<close> before the allocations are computed, \<open>fin_tree\<close> after.
  The functions \<open>abs_...\<close> are the steps of the first loop on these records.
\<close>

type_synonym acct_abs = "rat \<times> pyval \<times> pyval \<times> pyval"
type_synonym sub_abs = "rat \<times> (string \<times> acct_abs) list"
type_synonym class_abs = "rat \<times> (string \<times> sub_abs) list"
type_synonym tree_abs = "rat \<times> (string \<times> class_abs) list"

definition enc_items :: "('a \<Rightarrow> tree) \<Rightarrow> (string \<times> 'a) list \<Rightarrow> tree" where
  "enc_items f xs = Dict (map (\<lambda>(k, x). (k, f x)) xs)"

definition enc_acct :: "acct_abs \<Rightarrow> tree" where
  "enc_acct a = (case a of (bmv, igl, glp, lpd) \<Rightarrow>
     Dict [(''balance_market_value'', Leaf (PNum bmv)), (''income_gain_loss'', Leaf igl),
           (''gain_loss_percentage'', Leaf glp), (''latest_price_date'', Leaf lpd)])"

definition enc_sub :: "sub_abs \<Rightarrow> tree" where
  "enc_sub s = (case s of (tot, accts) \<Rightarrow>
     Dict [(''asset_subclass_total'', Leaf (PNum tot)), (''portfolio_allocation'', ZERO),
           (''asset_subclass_asset_class_allocation'', ZERO),
           (''accounts'', enc_items enc_acct accts)])"

definition enc_class :: "class_abs \<Rightarrow> tree" where
  "enc_class c = (case c of (tot, subs) \<Rightarrow>
     Dict [(''portfolio_allocation'', ZERO), (''asset_class_total'', Leaf (PNum tot)),
           (''asset_subclasses'', enc_items enc_sub subs)])"

definition enc_tree :: "tree_abs \<Rightarrow> tree" where
  "enc_tree t = (case t of (p, cs) \<Rightarrow>
     Dict [(''portfolio_total'', Leaf (PNum p)), (''asset_classes'', enc_items enc_class cs)])"

definition fin_acct :: "rat \<Rightarrow> rat \<Rightarrow> rat \<Rightarrow> acct_abs \<Rightarrow> tree" where
  "fin_acct p ct st a = (case a of (bmv, igl, glp, lpd) \<Rightarrow>
     Dict [(''balance_market_value'', Leaf (PNum bmv)), (''income_gain_loss'', Leaf igl),
           (''gain_loss_percentage'', Leaf glp), (''latest_price_date'', Leaf lpd),
           (''portfolio_allocation'', Leaf (PNum (pct bmv p))),
           (''asset_class_allocation'', Leaf (PNum (pct bmv ct))),
           (''asset_subclass_allocation'', Leaf (PNum (pct bmv st)))])"

definition fin_sub :: "rat \<Rightarrow> rat \<Rightarrow> sub_abs \<Rightarrow> tree" where
  "fin_sub p ct s = (case s of (tot, accts) \<Rightarrow>
     Dict [(''asset_subclass_total'', Leaf (PNum tot)),
           (''portfolio_allocation'', Leaf (PNum (pct tot p))),
           (''asset_subclass_asset_class_allocation'', ZERO),
           (''accounts'', enc_items (fin_acct p ct tot) accts),
           (''asset_class_allocation'', Leaf (PNum (pct tot ct)))])"

definition fin_class :: "rat \<Rightarrow> class_abs \<Rightarrow> tree" where
  "fin_class p c = (case c of (tot, subs) \<Rightarrow>
     Dict [(''portfolio_allocation'', Leaf (PNum (pct tot p))),
           (''asset_class_total'', Leaf (PNum tot)),
           (''asset_subclasses'', enc_items (fin_sub p tot) subs)])"

definition fin_tree :: "tree_abs \<Rightarrow> tree" where
  "fin_tree t = (case t of (p, cs) \<Rightarrow>
     Dict [(''portfolio_total'', Leaf (PNum p)), (''asset_classes'', enc_items (fin_class p) cs)])"

definition abs_ensure_class :: "string \<Rightarrow> (string \<times> class_abs) list \<Rightarrow> (string \<times> class_abs) list" where
  "abs_ensure_class c cs = (if c \<in> fst ` set cs then cs else AList.update c (0, []) cs)"

definition abs_ensure_subclass :: "string \<Rightarrow> string \<Rightarrow> (string \<times> class_abs) list \<Rightarrow> (string \<times> class_abs) list" where
  "abs_ensure_subclass c s cs =
     AList.map_entry c (\<lambda>(tot, subs).
        (tot, if s \<in> fst ` set subs then subs else AList.update s (0, []) subs)) cs"

definition abs_ensure :: "string \<Rightarrow> string \<Rightarrow> (string \<times> class_abs) list \<Rightarrow> (string \<times> class_abs) list" where
  "abs_ensure c s cs = abs_ensure_subclass c s (abs_ensure_class c cs)"

definition abs_add ::
  "string \<Rightarrow> string \<Rightarrow> string \<Rightarrow> rat \<Rightarrow> acct_abs \<Rightarrow> (string \<times> class_abs) list \<Rightarrow> (string \<times> class_abs) list" where
  "abs_add c s account mv a cs =
     AList.map_entry c (\<lambda>(tot, subs).
        (tot + mv, AList.map_entry s (\<lambda>(stot, accts).
            (stot + mv, AList.update account a accts)) subs)) cs"

definition abs_account_record :: "env \<Rightarrow> node \<Rightarrow> rat \<Rightarrow> error + (rat \<times> acct_abs)" where
  "abs_account_record env nd account_cost =
     bind_err (account_latest_price env nd) (\<lambda>latest_price.
       if latest_price = None \<or> fst (the latest_price) = None
       then Inr (account_cost, (account_cost, PNone, PNone, PNone))
       else bind_err (asset_info env nd) (\<lambda>(mv, gl, pct).
              Inr (mv, (mv, PNum gl, PNum pct, PDate (the (fst (the latest_price)))))))"

definition abs_process_node ::
  "env \<Rightarrow> node \<Rightarrow> tree_abs \<times> string list \<Rightarrow> error + (tree_abs \<times> string list)" where
  "abs_process_node env nd st =
     (case st of ((p, cs), errors) \<Rightarrow>
      if balance nd = [] then Inr st
      else
       (let c = meta_or env (node_commodity nd) ''asset-class'' ''noclass'';
            s = meta_or env (node_commodity nd) ''asset-subclass'' ''nosubclass'';
            cs2 = abs_ensure_subclass c s (abs_ensure_class c cs)
        in bind_err (convert_cost env nd) (\<lambda>cc.
             if snd cc = operating_currency env
             then bind_err (abs_account_record env nd (fst cc)) (\<lambda>(mv, a).
                    Inr ((p + mv, abs_add c s (name nd) mv a cs2), errors))
             else Inr ((p, cs2), errors @ [operating_currency_message env (name nd)]))))"

definition good :: "tree_abs \<Rightarrow> bool" where
  "good t \<longleftrightarrow>
     distinct (map fst (snd t)) \<and> fst t = (\<Sum>x \<leftarrow> snd t. fst (snd x)) \<and>
     (\<forall>x \<in> set (snd t). distinct (map fst (snd (snd x))) \<and>
        fst (snd x) = (\<Sum>y \<leftarrow> snd (snd x). fst (snd y)))"

definition ctotal :: "(string \<times> class_abs) list \<Rightarrow> string \<Rightarrow> rat" where
  "ctotal cs c = (case map_of cs c of Some x \<Rightarrow> fst x | None \<Rightarrow> 0)"

definition stotal :: "(string \<times> class_abs) list \<Rightarrow> string \<Rightarrow> string \<Rightarrow> rat" where
  "stotal cs c s = (case map_of cs c of
      Some x \<Rightarrow> (case map_of (snd x) s of Some y \<Rightarrow> fst y | None \<Rightarrow> 0) | None \<Rightarrow> 0)"

definition rec_of :: "(string \<times> class_abs) list \<Rightarrow> string \<Rightarrow> string \<Rightarrow> string \<Rightarrow> acct_abs option" where
  "rec_of cs c s a = (case map_of cs c of
      Some x \<Rightarrow> (case map_of (snd x) s of Some y \<Rightarrow> map_of (snd y) a | None \<Rightarrow> None)
    | None \<Rightarrow> None)"

definition warning :: "env \<Rightarrow> node \<Rightarrow> string list" where
  "warning env nd =
     (if balance nd = [] then []
      else case convert_cost env nd of
             Inl e \<Rightarrow> []
           | Inr cc \<Rightarrow> if snd cc = operating_currency env then []
                       else [operating_currency_message env (name nd)])"

section \<open>An example ledger\<close>

text \<open>
  Four accounts in a ledger whose operating currency is USD: shares with a known price,
  bonds and a gift without one (the gift at cost 0), and euros that no price converts.
\<close>

definition example_env :: env where
  "example_env = \<lparr>operating_currency = ''USD'',
     commodity_dict = (\<lambda>c.
       if c = ''AAPL'' then Some (\<lambda>k. if k = ''asset-class'' then Some ''stock'' else None)
       else if c = ''BND'' then Some (\<lambda>k. if k = ''asset-class'' then Some ''bond''
                                        else if k = ''asset-subclass'' then Some ''gov'' else None)
       else None),
     get_cost = (\<lambda>nd. if name nd = ''Assets:Stock'' then [(''USD'', 100)]
                      else if name nd = ''Assets:Bond'' then [(''USD'', 300)]
                      else if name nd = ''Assets:Gift'' then [(''USD'', 0)]
                      else [(''EUR'', 5)]),
     convert_amount = (\<lambda>x. x),
     get_latest_price = (\<lambda>p. if p = (''USD'', ''AAPL'') then (Some 738000, Some 15)
                             else (None, None)),
     market_value = (\<lambda>nd. if name nd = ''Assets:Stock'' then 150 else 0)\<rparr>"

definition node_stock :: node where
  "node_stock = \<lparr>name = ''Assets:Stock'', balance = [((''AAPL'', Some (10, ''USD'')), 10)]\<rparr>"

definition node_bond :: node where
  "node_bond = \<lparr>name = ''Assets:Bond'', balance = [((''BND'', Some (10, ''USD'')), 30)]\<rparr>"

definition node_gift :: node where
  "node_gift = \<lparr>name = ''Assets:Gift'', balance = [((''GIFT'', Some (0, ''USD'')), 2)]\<rparr>"

definition node_euro :: node where
  "node_euro = \<lparr>name = ''Assets:Euro'', balance = [((''EUR'', None), 5)]\<rparr>"

definition example_nodes :: "node list" where
  "example_nodes = [node_stock, node_bond, node_gift, node_euro]"

definition example_tree :: tree where
  "example_tree = (case portfolio_data example_env example_nodes of
      Inr (t, tys, errs) \<Rightarrow> t | Inl e \<Rightarrow> Leaf PNone)"

text \<open>The tree of the same ledger without the euros.\<close>

definition example_tree_valued :: tree where
  "example_tree_valued = (case portfolio_data example_env [node_stock, node_bond, node_gift] of
      Inr (t, tys, errs) \<Rightarrow> t | Inl e \<Rightarrow> Leaf PNone)"

text \<open>A selection of the nodes by name that finds the shares under the pattern \<^verbatim>\<open>Stock\<close>.\<close>

definition example_selection :: selection where
  "example_selection = \<lparr>capitalize = (\<lambda>s. s),
     nodes_by_name = (\<lambda>pattern. if pattern = ''Stock'' then [node_stock] else []),
     nodes_by_metadata = (\<lambda>key pattern. [])\<rparr>"

section \<open>Properties\<close>

subsection \<open>The builder on the typed view\<close>

lemma bind_err_simps [simp]:
  "bind_err (Inl e) f = Inl e"
  "bind_err (Inr x) f = f x"
  by (simp_all add: bind_err_def)

lemma bind_err_Inr_iff:
  "bind_err m f = Inr y \<longleftrightarrow> (\<exists>x. m = Inr x \<and> f x = Inr y)"
  by (cases m) simp_all

lemma update_map_values:
  "AList.update k (f x) (map (\<lambda>(k, x). (k, f x)) xs) = map (\<lambda>(k, x). (k, f x)) (AList.update k x xs)"
  by (induction xs) auto

lemma getitem_enc_items:
  "getitem (enc_items f xs) k = (case map_of xs k of None \<Rightarrow> Inl KeyError | Some x \<Rightarrow> Inr (f x))"
  by (simp add: enc_items_def map_of_map split: option.splits)

lemma setitem_enc_items:
  "setitem k (f x) (enc_items f xs) = Inr (enc_items f (AList.update k x xs))"
  by (simp add: enc_items_def update_map_values)

lemma contains_enc_items:
  "contains (enc_items f xs) k = Inr (k \<in> fst ` set xs)"
  by (force simp add: enc_items_def)

lemma at_enc_items:
  assumes "map_of xs k = Some x" and "at_path ks g (f x) = Inr (f x')"
  shows "at_path (k # ks) g (enc_items f xs) = Inr (enc_items f (AList.update k x' xs))"
  using assms by (simp add: getitem_enc_items setitem_enc_items)

lemma at_classes:
  assumes "at_path ks g (enc_items enc_class cs) = Inr (enc_items enc_class cs')"
  shows "at_path (''asset_classes'' # ks) g (enc_tree (p, cs)) = Inr (enc_tree (p, cs'))"
  using assms by (simp add: enc_tree_def)

lemma at_subclasses:
  assumes "at_path ks g (enc_items enc_sub subs) = Inr (enc_items enc_sub subs')"
  shows "at_path (''asset_subclasses'' # ks) g (enc_class (tot, subs)) = Inr (enc_class (tot, subs'))"
  using assms by (simp add: enc_class_def)

lemma at_accounts:
  assumes "at_path ks g (enc_items enc_acct accts) = Inr (enc_items enc_acct accts')"
  shows "at_path (''accounts'' # ks) g (enc_sub (tot, accts)) = Inr (enc_sub (tot, accts'))"
  using assms by (simp add: enc_sub_def)

lemma new_class_enc: "new_class = enc_class (0, [])"
  by (simp add: new_class_def enc_class_def enc_items_def)

lemma new_subclass_enc: "new_subclass = enc_sub (0, [])"
  by (simp add: new_subclass_def enc_sub_def enc_items_def)

lemma ensure_class_enc:
  "ensure_class c (enc_tree (p, cs)) = Inr (enc_tree (p, abs_ensure_class c cs))"
proof -
  have g: "getitem (enc_tree (p, cs)) ''asset_classes'' = Inr (enc_items enc_class cs)"
    by (simp add: enc_tree_def)
  have "at_path [] (setitem c new_class) (enc_items enc_class cs)
      = Inr (enc_items enc_class (AList.update c (0, []) cs))"
    by (simp add: new_class_enc setitem_enc_items)
  then have "at_path [''asset_classes''] (setitem c new_class) (enc_tree (p, cs))
      = Inr (enc_tree (p, AList.update c (0, []) cs))"
    by (rule at_classes)
  then show ?thesis
    by (simp add: ensure_class_def g contains_enc_items abs_ensure_class_def)
qed

lemma update_eq_map_entry:
  "map_of xs k = Some x \<Longrightarrow> AList.update k (f x) xs = AList.map_entry k f xs"
  by (induction xs) auto

lemma update_same:
  "map_of xs k = Some x \<Longrightarrow> AList.update k x xs = xs"
  by (induction xs) auto

lemma ensure_subclass_enc:
  assumes "map_of cs c = Some x"
  shows "ensure_subclass c s (enc_tree (p, cs)) = Inr (enc_tree (p, abs_ensure_subclass c s cs))"
proof -
  obtain tot subs where x: "x = (tot, subs)"
    by (cases x)
  have g1: "getitem (enc_tree (p, cs)) ''asset_classes'' = Inr (enc_items enc_class cs)"
    by (simp add: enc_tree_def)
  have g2: "getitem (enc_items enc_class cs) c = Inr (enc_class (tot, subs))"
    using assms x by (simp add: getitem_enc_items)
  have g3: "getitem (enc_class (tot, subs)) ''asset_subclasses'' = Inr (enc_items enc_sub subs)"
    by (simp add: enc_class_def)
  show ?thesis
  proof (cases "s \<in> fst ` set subs")
    case True
    have "abs_ensure_subclass c s cs = AList.update c x cs"
      using update_eq_map_entry [OF assms, of "\<lambda>(tot, subs).
        (tot, if s \<in> fst ` set subs then subs else AList.update s (0, []) subs)"] True x
      by (simp add: abs_ensure_subclass_def)
    then have "abs_ensure_subclass c s cs = cs"
      using assms by (simp add: update_same)
    then show ?thesis
      using True by (simp add: ensure_subclass_def g1 g2 g3 contains_enc_items)
  next
    case False
    have "at_path [] (setitem s new_subclass) (enc_items enc_sub subs)
        = Inr (enc_items enc_sub (AList.update s (0, []) subs))"
      by (simp add: new_subclass_enc setitem_enc_items)
    then have "at_path [''asset_subclasses''] (setitem s new_subclass) (enc_class (tot, subs))
        = Inr (enc_class (tot, AList.update s (0, []) subs))"
      by (rule at_subclasses)
    then have "at_path [c, ''asset_subclasses''] (setitem s new_subclass) (enc_items enc_class cs)
        = Inr (enc_items enc_class (AList.update c (tot, AList.update s (0, []) subs) cs))"
      using assms x by (intro at_enc_items) auto
    then have "at_path [''asset_classes'', c, ''asset_subclasses''] (setitem s new_subclass)
          (enc_tree (p, cs))
        = Inr (enc_tree (p, AList.update c (tot, AList.update s (0, []) subs) cs))"
      by (rule at_classes)
    moreover have "AList.update c (tot, AList.update s (0, []) subs) cs = abs_ensure_subclass c s cs"
      using update_eq_map_entry [OF assms, of "\<lambda>(tot, subs).
        (tot, if s \<in> fst ` set subs then subs else AList.update s (0, []) subs)"] False x
      by (simp add: abs_ensure_subclass_def)
    ultimately show ?thesis
      using False by (simp add: ensure_subclass_def g1 g2 g3 contains_enc_items)
  qed
qed

lemma iadd_portfolio_total:
  "iadd ''portfolio_total'' mv (enc_tree (p, cs)) = Inr (enc_tree (p + mv, cs))"
  by (simp add: iadd_def enc_tree_def)

lemma iadd_class_total:
  "iadd ''asset_class_total'' mv (enc_class (tot, subs)) = Inr (enc_class (tot + mv, subs))"
  by (simp add: iadd_def enc_class_def)

lemma iadd_subclass_total:
  "iadd ''asset_subclass_total'' mv (enc_sub (tot, accts)) = Inr (enc_sub (tot + mv, accts))"
  by (simp add: iadd_def enc_sub_def)

lemma map_of_update_same: "map_of (AList.update k v xs) k = Some v"
  by (simp add: update_conv')

lemma accumulate_enc:
  assumes c: "map_of cs c = Some (tot, subs)" and s: "map_of subs s = Some (stot, accts)"
  shows "accumulate c s account mv (enc_acct a) (enc_tree (p, cs))
         = Inr (enc_tree (p + mv, abs_add c s account mv a cs))"
proof -
  let ?accts = "AList.update account a accts"
  let ?subs1 = "AList.update s (stot, ?accts) subs"
  let ?cs1 = "AList.update c (tot, ?subs1) cs"
  let ?cs3 = "AList.update c (tot + mv, ?subs1) cs"
  let ?subs4 = "AList.update s (stot + mv, ?accts) subs"
  let ?cs4 = "AList.update c (tot + mv, ?subs4) cs"
  have "at_path [] (setitem account (enc_acct a)) (enc_items enc_acct accts)
      = Inr (enc_items enc_acct ?accts)"
    by (simp add: setitem_enc_items)
  then have "at_path [''accounts''] (setitem account (enc_acct a)) (enc_sub (stot, accts))
      = Inr (enc_sub (stot, ?accts))"
    by (rule at_accounts)
  then have "at_path [s, ''accounts''] (setitem account (enc_acct a)) (enc_items enc_sub subs)
      = Inr (enc_items enc_sub ?subs1)"
    using s by (intro at_enc_items) auto
  then have "at_path [''asset_subclasses'', s, ''accounts''] (setitem account (enc_acct a))
        (enc_class (tot, subs)) = Inr (enc_class (tot, ?subs1))"
    by (rule at_subclasses)
  then have "at_path [c, ''asset_subclasses'', s, ''accounts''] (setitem account (enc_acct a))
        (enc_items enc_class cs) = Inr (enc_items enc_class ?cs1)"
    using c by (intro at_enc_items) auto
  then have 1: "at_path [''asset_classes'', c, ''asset_subclasses'', s, ''accounts'']
        (setitem account (enc_acct a)) (enc_tree (p, cs)) = Inr (enc_tree (p, ?cs1))"
    by (rule at_classes)
  have 2: "(if mv \<noteq> 0 then iadd ''portfolio_total'' mv (enc_tree (p, ?cs1))
            else Inr (enc_tree (p, ?cs1))) = Inr (enc_tree (p + mv, ?cs1))"
    by (simp add: iadd_portfolio_total)
  have "at_path [] (iadd ''asset_class_total'' mv) (enc_class (tot, ?subs1))
      = Inr (enc_class (tot + mv, ?subs1))"
    by (simp add: iadd_class_total)
  then have "at_path [c] (iadd ''asset_class_total'' mv) (enc_items enc_class ?cs1)
      = Inr (enc_items enc_class (AList.update c (tot + mv, ?subs1) ?cs1))"
    by (intro at_enc_items) (auto simp: map_of_update_same)
  then have 3: "at_path [''asset_classes'', c] (iadd ''asset_class_total'' mv)
        (enc_tree (p + mv, ?cs1)) = Inr (enc_tree (p + mv, ?cs3))"
    using at_classes [of "[c]" _ ?cs1 ?cs3] by simp
  have "at_path [] (iadd ''asset_subclass_total'' mv) (enc_sub (stot, ?accts))
      = Inr (enc_sub (stot + mv, ?accts))"
    by (simp add: iadd_subclass_total)
  then have "at_path [s] (iadd ''asset_subclass_total'' mv) (enc_items enc_sub ?subs1)
      = Inr (enc_items enc_sub (AList.update s (stot + mv, ?accts) ?subs1))"
    by (intro at_enc_items) (auto simp: map_of_update_same)
  then have "at_path [s] (iadd ''asset_subclass_total'' mv) (enc_items enc_sub ?subs1)
      = Inr (enc_items enc_sub ?subs4)"
    by simp
  then have "at_path [''asset_subclasses'', s] (iadd ''asset_subclass_total'' mv)
        (enc_class (tot + mv, ?subs1)) = Inr (enc_class (tot + mv, ?subs4))"
    by (rule at_subclasses)
  then have "at_path [c, ''asset_subclasses'', s] (iadd ''asset_subclass_total'' mv)
        (enc_items enc_class ?cs3) = Inr (enc_items enc_class (AList.update c (tot + mv, ?subs4) ?cs3))"
    by (intro at_enc_items) (auto simp: map_of_update_same)
  then have "at_path [c, ''asset_subclasses'', s] (iadd ''asset_subclass_total'' mv)
        (enc_items enc_class ?cs3) = Inr (enc_items enc_class ?cs4)"
    by simp
  then have 4: "at_path [''asset_classes'', c, ''asset_subclasses'', s]
        (iadd ''asset_subclass_total'' mv) (enc_tree (p + mv, ?cs3)) = Inr (enc_tree (p + mv, ?cs4))"
    by (rule at_classes)
  have "AList.map_entry s (\<lambda>(stot, accts). (stot + mv, AList.update account a accts)) subs = ?subs4"
    using update_eq_map_entry [OF s, of "\<lambda>(stot, accts). (stot + mv, AList.update account a accts)"]
    by simp
  then have "abs_add c s account mv a cs = ?cs4"
    using update_eq_map_entry [OF c, of "\<lambda>(tot, subs).
        (tot + mv, AList.map_entry s (\<lambda>(stot, accts).
            (stot + mv, AList.update account a accts)) subs)"]
    by (simp add: abs_add_def)
  then show ?thesis
    unfolding accumulate_def by (simp only: 1 2 3 4 bind_err_simps)
qed

lemma account_record_enc:
  "account_record env nd cost =
     bind_err (abs_account_record env nd cost) (\<lambda>(mv, a). Inr (mv, enc_acct a))"
  by (cases "account_latest_price env nd"; cases "asset_info env nd")
     (auto simp: account_record_def abs_account_record_def enc_acct_def Let_def)

lemma abs_ensure_class_present: "\<exists>x. map_of (abs_ensure_class c cs) c = Some x"
  by (auto simp: abs_ensure_class_def map_of_update_same weak_map_of_SomeI
      dest!: weak_map_of_SomeI)

lemma in_keys_map_of: "k \<in> fst ` set xs \<Longrightarrow> \<exists>x. map_of xs k = Some x"
  by (induction xs) auto

lemma abs_ensure_subclass_present:
  assumes "map_of cs c = Some x"
  shows "\<exists>tot subs stot accts. map_of (abs_ensure_subclass c s cs) c = Some (tot, subs)
           \<and> map_of subs s = Some (stot, accts)"
proof -
  obtain tot subs where x: "x = (tot, subs)"
    by (cases x)
  let ?subs = "if s \<in> fst ` set subs then subs else AList.update s (0, []) subs"
  have "map_of (abs_ensure_subclass c s cs) c = Some (tot, ?subs)"
    using assms x by (simp add: abs_ensure_subclass_def map_of_map_entry)
  moreover have "\<exists>y. map_of ?subs s = Some y"
    using in_keys_map_of [of s subs] by (auto simp: map_of_update_same)
  ultimately show ?thesis
    by auto
qed

lemma process_node_enc:
  "process_node env nd (enc_tree s, errs) =
     bind_err (abs_process_node env nd (s, errs)) (\<lambda>(s', errs'). Inr (enc_tree s', errs'))"
proof (cases "balance nd = []")
  case True
  then show ?thesis
    by (simp add: process_node_def abs_process_node_def split: prod.splits)
next
  case False
  obtain p cs where s: "s = (p, cs)"
    by (cases s)
  define c where "c = meta_or env (node_commodity nd) ''asset-class'' ''noclass''"
  define sc where "sc = meta_or env (node_commodity nd) ''asset-subclass'' ''nosubclass''"
  define cs1 where "cs1 = abs_ensure_class c cs"
  define cs2 where "cs2 = abs_ensure_subclass c sc cs1"
  obtain x where x: "map_of cs1 c = Some x"
    using abs_ensure_class_present cs1_def by blast
  then obtain tot subs stot accts where
    p2: "map_of cs2 c = Some (tot, subs)" "map_of subs sc = Some (stot, accts)"
    using abs_ensure_subclass_present cs2_def by blast
  have e1: "ensure_class c (enc_tree (p, cs)) = Inr (enc_tree (p, cs1))"
    by (simp add: ensure_class_enc cs1_def)
  have e2: "ensure_subclass c sc (enc_tree (p, cs1)) = Inr (enc_tree (p, cs2))"
    using x by (simp add: ensure_subclass_enc cs2_def)
  have acc: "accumulate c sc (name nd) mv (enc_acct a) (enc_tree (p, cs2))
      = Inr (enc_tree (p + mv, abs_add c sc (name nd) mv a cs2))" for mv a
    using p2 by (rule accumulate_enc)
  show ?thesis
  proof (cases "convert_cost env nd")
    case (Inl e)
    then show ?thesis
      using False s
      by (simp add: process_node_def abs_process_node_def Let_def e1 e2
          c_def [symmetric] sc_def [symmetric] cs1_def [symmetric] cs2_def [symmetric])
  next
    case (Inr cc)
    show ?thesis
    proof (cases "snd cc = operating_currency env")
      case True
      show ?thesis
      proof (cases "abs_account_record env nd (fst cc)")
        case (Inl e)
        then show ?thesis
          using False s Inr True
          by (simp add: process_node_def abs_process_node_def Let_def e1 e2 account_record_enc
              c_def [symmetric] sc_def [symmetric] cs1_def [symmetric] cs2_def [symmetric])
      next
        case r: (Inr ma)
        then show ?thesis
          using False s Inr True
          by (cases ma)
            (simp add: process_node_def abs_process_node_def Let_def e1 e2 account_record_enc acc
              c_def [symmetric] sc_def [symmetric] cs1_def [symmetric] cs2_def [symmetric])
      qed
    next
      case neq: False
      then have "operating_currency env \<noteq> snd cc"
        by auto
      then show ?thesis
        using False s Inr neq
        by (simp add: process_node_def abs_process_node_def Let_def e1 e2
            c_def [symmetric] sc_def [symmetric] cs1_def [symmetric] cs2_def [symmetric])
    qed
  qed
qed

lemma for_each_enc:
  "for_each (process_node env) nodes (enc_tree s, errs) =
     bind_err (for_each (abs_process_node env) nodes (s, errs))
       (\<lambda>(s', errs'). Inr (enc_tree s', errs'))"
proof (induction nodes arbitrary: s errs)
  case Nil
  then show ?case by simp
next
  case (Cons nd nodes)
  show ?case
  proof (cases "abs_process_node env nd (s, errs)")
    case (Inl e)
    then show ?thesis
      by (simp add: process_node_enc)
  next
    case (Inr st)
    then show ?thesis
      by (cases st) (simp add: process_node_enc Cons.IH)
  qed
qed

lemma allocation_num:
  "allocation (Leaf (PNum n)) (Leaf (PNum d)) = Inr (Leaf (PNum (pct n d)))"
  by (simp add: allocation_def pct_def)

lemma for_values_map:
  assumes "\<And>x. body (f x) = Inr (g x)"
  shows "for_values body (map (\<lambda>(k, x). (k, f x)) xs) = Inr (map (\<lambda>(k, x). (k, g x)) xs)"
  by (induction xs) (auto simp: assms)

lemma for_dict_enc_items:
  assumes "\<And>x. body (f x) = Inr (g x)"
  shows "for_dict body (enc_items f xs) = Inr (enc_items g xs)"
  by (simp add: for_dict_def enc_items_def for_values_map [of body f g, OF assms])

lemma allocate_account_enc:
  "allocate_account (Leaf (PNum p)) (Leaf (PNum ct)) (Leaf (PNum st)) (enc_acct a)
     = Inr (fin_acct p ct st a)"
  by (cases a) (simp add: allocate_account_def enc_acct_def fin_acct_def allocation_num)

lemma allocate_subclass_enc:
  "allocate_subclass (Leaf (PNum p)) (Leaf (PNum ct)) (enc_sub s) = Inr (fin_sub p ct s)"
proof -
  obtain tot accts where s: "s = (tot, accts)"
    by (cases s)
  have "for_dict (allocate_account (Leaf (PNum p)) (Leaf (PNum ct)) (Leaf (PNum tot)))
          (enc_items enc_acct accts) = Inr (enc_items (fin_acct p ct tot) accts)"
    by (rule for_dict_enc_items) (rule allocate_account_enc)
  then show ?thesis
    by (simp add: s allocate_subclass_def enc_sub_def fin_sub_def allocation_num)
qed

lemma allocate_class_enc:
  "allocate_class (Leaf (PNum p)) (enc_class c) = Inr (fin_class p c)"
proof -
  obtain tot subs where c: "c = (tot, subs)"
    by (cases c)
  have "for_dict (allocate_subclass (Leaf (PNum p)) (Leaf (PNum tot)))
          (enc_items enc_sub subs) = Inr (enc_items (fin_sub p tot) subs)"
    by (rule for_dict_enc_items) (rule allocate_subclass_enc)
  then show ?thesis
    by (simp add: c allocate_class_def enc_class_def fin_class_def allocation_num)
qed

lemma allocations_enc: "allocations (enc_tree s) = Inr (fin_tree s)"
proof -
  obtain p cs where s: "s = (p, cs)"
    by (cases s)
  have "for_dict (allocate_class (Leaf (PNum p))) (enc_items enc_class cs)
      = Inr (enc_items (fin_class p) cs)"
    by (rule for_dict_enc_items) (rule allocate_class_enc)
  then show ?thesis
    by (simp add: s allocations_def enc_tree_def fin_tree_def)
qed

lemma portfolio_data_abs:
  "portfolio_data env nodes =
     bind_err (for_each (abs_process_node env) nodes ((0, []), []))
       (\<lambda>(s, errs). Inr (fin_tree s, types, errs))"
proof -
  have "Dict [(''portfolio_total'', ZERO), (''asset_classes'', Dict [])] = enc_tree (0, [])"
    by (simp add: enc_tree_def enc_items_def)
  then show ?thesis
    by (cases "for_each (abs_process_node env) nodes ((0, []), [])")
       (auto simp: portfolio_data_def for_each_enc allocations_enc)
qed

lemma update_new: "k \<notin> fst ` set xs \<Longrightarrow> AList.update k v xs = xs @ [(k, v)]"
  by (induction xs) auto

lemma sum_map_entry:
  fixes g :: "'b \<Rightarrow> rat"
  assumes "distinct (map fst xs)" and "map_of xs k = Some x"
  shows "(\<Sum>e \<leftarrow> AList.map_entry k f xs. g (snd e)) = (\<Sum>e \<leftarrow> xs. g (snd e)) - g x + g (f x)"
  using assms
proof (induction xs)
  case Nil
  then show ?case by simp
next
  case (Cons e xs)
  then show ?case
    by (cases e) (auto simp: image_iff dest: map_of_SomeD)
qed

lemma in_map_entry:
  assumes "e \<in> set (AList.map_entry k f xs)"
  shows "e \<in> set xs \<or> (\<exists>x. (k, x) \<in> set xs \<and> e = (k, f x))"
  using assms by (induction xs) (auto split: if_splits)

lemma good_ensure_class:
  assumes "good (p, cs)"
  shows "good (p, abs_ensure_class c cs)"
proof (cases "c \<in> fst ` set cs")
  case True
  then show ?thesis
    using assms by (simp add: abs_ensure_class_def)
next
  case False
  then have "abs_ensure_class c cs = cs @ [(c, (0, []))]"
    by (simp add: abs_ensure_class_def update_new)
  then show ?thesis
    using assms False by (auto simp: good_def)
qed

lemma good_map_entry:
  assumes g: "good (p, cs)" and c: "map_of cs c = Some (tot, subs)"
    and d: "distinct (map fst subs')" and t: "tot + mv = (\<Sum>y \<leftarrow> subs'. fst (snd y))"
  shows "good (p + mv, AList.map_entry c (\<lambda>x. (tot + mv, subs')) cs)"
proof -
  have "(\<Sum>e \<leftarrow> AList.map_entry c (\<lambda>x. (tot + mv, subs')) cs. fst (snd e))
      = (\<Sum>e \<leftarrow> cs. fst (snd e)) - fst (tot, subs) + fst (tot + mv, subs')"
    using g c by (intro sum_map_entry) (auto simp: good_def)
  then have 1: "p + mv = (\<Sum>e \<leftarrow> AList.map_entry c (\<lambda>x. (tot + mv, subs')) cs. fst (snd e))"
    using g by (simp add: good_def)
  have 2: "distinct (map fst (AList.map_entry c (\<lambda>x. (tot + mv, subs')) cs))"
    using g by (simp add: good_def distinct_map_entry)
  have 3: "distinct (map fst (snd (snd x))) \<and> fst (snd x) = (\<Sum>y \<leftarrow> snd (snd x). fst (snd y))"
    if "x \<in> set (AList.map_entry c (\<lambda>x. (tot + mv, subs')) cs)" for x
    using in_map_entry [OF that] g d t by (auto simp: good_def)
  show ?thesis
    unfolding good_def using 1 2 3 by auto
qed

lemma map_entry_const:
  "map_of xs k = Some x \<Longrightarrow> AList.map_entry k f xs = AList.map_entry k (\<lambda>_. f x) xs"
  by (induction xs) auto

lemma good_class_entry:
  assumes "good (p, cs)" and "map_of cs c = Some (tot, subs)"
  shows "distinct (map fst subs) \<and> tot = (\<Sum>y \<leftarrow> subs. fst (snd y))"
  using assms by (force simp: good_def dest: map_of_SomeD)

lemma map_entry_absent: "k \<notin> fst ` set xs \<Longrightarrow> AList.map_entry k f xs = xs"
  by (induction xs) auto

lemma good_ensure_subclass:
  assumes g: "good (p, cs)"
  shows "good (p, abs_ensure_subclass c s cs)"
proof (cases "map_of cs c")
  case None
  then have "c \<notin> fst ` set cs"
    by (simp add: map_of_eq_None_iff)
  then have "abs_ensure_subclass c s cs = cs"
    by (simp add: abs_ensure_subclass_def map_entry_absent)
  then show ?thesis
    using g by simp
next
  case (Some x)
  obtain tot subs where x: "x = (tot, subs)"
    by (cases x)
  let ?subs = "if s \<in> fst ` set subs then subs else AList.update s (0, []) subs"
  have e: "abs_ensure_subclass c s cs = AList.map_entry c (\<lambda>x. (tot + 0, ?subs)) cs"
    unfolding abs_ensure_subclass_def
    using map_entry_const [OF Some, of "\<lambda>(tot, subs).
        (tot, if s \<in> fst ` set subs then subs else AList.update s (0, []) subs)"] x
    by simp
  have ce: "distinct (map fst subs) \<and> tot = (\<Sum>y \<leftarrow> subs. fst (snd y))"
    using good_class_entry g Some x by blast
  have "good (p + 0, AList.map_entry c (\<lambda>x. (tot + 0, ?subs)) cs)"
    using g Some x ce
    by (intro good_map_entry [where subs = subs]) (auto simp: update_new)
  then show ?thesis
    using e by simp
qed

lemma good_add:
  assumes g: "good (p, cs)" and c: "map_of cs c = Some (tot, subs)"
    and s: "map_of subs s = Some (stot, accts)"
  shows "good (p + mv, abs_add c s account mv a cs)"
proof -
  let ?subs = "AList.map_entry s (\<lambda>(stot, accts). (stot + mv, AList.update account a accts)) subs"
  have e: "abs_add c s account mv a cs = AList.map_entry c (\<lambda>x. (tot + mv, ?subs)) cs"
    unfolding abs_add_def
    using map_entry_const [OF c, of "\<lambda>(tot, subs).
        (tot + mv, AList.map_entry s (\<lambda>(stot, accts).
            (stot + mv, AList.update account a accts)) subs)"]
    by simp
  have ce: "distinct (map fst subs) \<and> tot = (\<Sum>y \<leftarrow> subs. fst (snd y))"
    using good_class_entry g c by blast
  have "(\<Sum>y \<leftarrow> ?subs. fst (snd y)) = (\<Sum>y \<leftarrow> subs. fst (snd y)) - fst (stot, accts)
      + fst ((\<lambda>(stot, accts). (stot + mv, AList.update account a accts)) (stot, accts))"
    using ce s by (intro sum_map_entry) auto
  then have "tot + mv = (\<Sum>y \<leftarrow> ?subs. fst (snd y))"
    using ce by simp
  moreover have "distinct (map fst ?subs)"
    using ce by (simp add: distinct_map_entry)
  ultimately show ?thesis
    unfolding e using g c by (intro good_map_entry [where subs = subs]) auto
qed

lemma in_keys_iff: "k \<in> fst ` set xs \<longleftrightarrow> map_of xs k \<noteq> None"
  by (simp add: map_of_eq_None_iff)

lemma map_of_ensure_class:
  "map_of (abs_ensure_class c cs) c' =
     (if c' = c \<and> map_of cs c = None then Some (0, []) else map_of cs c')"
  by (auto simp: abs_ensure_class_def update_conv' in_keys_iff)

lemma map_of_ensure_subclass:
  "map_of (abs_ensure_subclass c s cs) c' =
     (if c' = c then
        (case map_of cs c of None \<Rightarrow> None
         | Some x \<Rightarrow> Some (fst x, if s \<in> fst ` set (snd x) then snd x
                                    else AList.update s (0, []) (snd x)))
      else map_of cs c')"
  by (auto simp: abs_ensure_subclass_def map_of_map_entry split: option.splits)

lemma totals_ensure:
  "ctotal (abs_ensure c s cs) c' = ctotal cs c'"
  "stotal (abs_ensure c s cs) c' s' = stotal cs c' s'"
  "rec_of (abs_ensure c s cs) c' s' a' = rec_of cs c' s' a'"
  by (auto simp: abs_ensure_def ctotal_def stotal_def rec_of_def map_of_ensure_class
      map_of_ensure_subclass update_conv' in_keys_iff split: option.splits)

lemma ensure_present:
  "\<exists>tot subs stotal accts. map_of (abs_ensure c s cs) c = Some (tot, subs)
      \<and> map_of subs s = Some (stotal, accts)"
  using abs_ensure_class_present [of c cs] abs_ensure_subclass_present [of "abs_ensure_class c cs" c]
  by (fastforce simp: abs_ensure_def)

lemma map_of_add:
  "map_of (abs_add c s account mv a cs) c' =
     (if c' = c then
        (case map_of cs c of None \<Rightarrow> None
         | Some x \<Rightarrow> Some (fst x + mv, AList.map_entry s (\<lambda>(stotal, accts).
              (stotal + mv, AList.update account a accts)) (snd x)))
      else map_of cs c')"
  by (auto simp: abs_add_def map_of_map_entry split: option.splits)

lemma totals_add:
  assumes "map_of cs c = Some (tot, subs)" and "map_of subs s = Some (st, accts)"
  shows "ctotal (abs_add c s account mv a cs) c' = ctotal cs c' + (if c = c' then mv else 0)"
    and "stotal (abs_add c s account mv a cs) c' s' =
           stotal cs c' s' + (if c = c' \<and> s = s' then mv else 0)"
    and "rec_of (abs_add c s account mv a cs) c' s' a' =
           (if c = c' \<and> s = s' \<and> account = a' then Some a else rec_of cs c' s' a')"
  using assms
  by (auto simp: ctotal_def stotal_def rec_of_def map_of_add map_of_map_entry update_conv'
      split: option.splits)

lemma abs_step_cases:
  assumes "abs_process_node env nd ((p, cs), errs) = Inr ((p', cs'), errs')"
  obtains
    (empty) "balance nd = []" "p' = p" "cs' = cs" "errs' = errs"
  | (mismatch) cc where "balance nd \<noteq> []" "convert_cost env nd = Inr cc"
      "snd cc \<noteq> operating_currency env" "p' = p"
      "cs' = abs_ensure (asset_class_of env nd) (asset_subclass_of env nd) cs"
      "errs' = errs @ [operating_currency_message env (name nd)]"
  | (valued) cc mv a where "balance nd \<noteq> []" "convert_cost env nd = Inr cc"
      "snd cc = operating_currency env" "abs_account_record env nd (fst cc) = Inr (mv, a)"
      "p' = p + mv"
      "cs' = abs_add (asset_class_of env nd) (asset_subclass_of env nd) (name nd) mv a
               (abs_ensure (asset_class_of env nd) (asset_subclass_of env nd) cs)"
      "errs' = errs"
proof (cases "balance nd = []")
  case True
  then show ?thesis
    using assms empty by (simp add: abs_process_node_def)
next
  case False
  show ?thesis
  proof (cases "convert_cost env nd")
    case (Inl e)
    then show ?thesis
      using assms False by (simp add: abs_process_node_def Let_def)
  next
    case (Inr cc)
    show ?thesis
    proof (cases "snd cc = operating_currency env")
      case True
      then obtain mv a where "abs_account_record env nd (fst cc) = Inr (mv, a)"
        using assms False Inr
        by (cases "abs_account_record env nd (fst cc)")
           (auto simp: abs_process_node_def Let_def)
      then show ?thesis
        using assms False Inr True valued [of cc mv a]
        by (simp add: abs_process_node_def Let_def abs_ensure_def asset_class_of_def
            asset_subclass_of_def)
    next
      case neq: False
      then show ?thesis
        using assms False Inr mismatch [of cc]
        by (simp add: abs_process_node_def Let_def abs_ensure_def asset_class_of_def
            asset_subclass_of_def)
    qed
  qed
qed

lemma step_good:
  assumes "abs_process_node env nd ((p, cs), errs) = Inr ((p', cs'), errs')" and "good (p, cs)"
  shows "good (p', cs')"
  using assms(1)
proof (cases rule: abs_step_cases)
  case empty
  then show ?thesis using assms(2) by simp
next
  case (mismatch cc)
  then show ?thesis
    using assms(2) by (simp add: abs_ensure_def good_ensure_class good_ensure_subclass)
next
  case (valued cc mv a)
  let ?c = "asset_class_of env nd" and ?s = "asset_subclass_of env nd"
  have g: "good (p, abs_ensure ?c ?s cs)"
    using assms(2) by (simp add: abs_ensure_def good_ensure_class good_ensure_subclass)
  obtain tot subs st accts where "map_of (abs_ensure ?c ?s cs) ?c = Some (tot, subs)"
    "map_of subs ?s = Some (st, accts)"
    using ensure_present by blast
  then show ?thesis
    using valued g by (simp add: good_add)
qed

lemma step_totals:
  assumes "abs_process_node env nd ((p, cs), errs) = Inr ((p', cs'), errs')"
  shows "p' = p + contribution env nd"
    and "ctotal cs' c = ctotal cs c + (if asset_class_of env nd = c then contribution env nd else 0)"
    and "stotal cs' c s = stotal cs c s +
           (if asset_class_of env nd = c \<and> asset_subclass_of env nd = s
            then contribution env nd else 0)"
  using assms
proof (atomize (full), cases rule: abs_step_cases)
  case empty
  then show "p' = p + contribution env nd \<and>
    ctotal cs' c = ctotal cs c + (if asset_class_of env nd = c then contribution env nd else 0) \<and>
    stotal cs' c s = stotal cs c s + (if asset_class_of env nd = c \<and> asset_subclass_of env nd = s
            then contribution env nd else 0)"
    by (simp add: contribution_def)
next
  case (mismatch cc)
  then show "p' = p + contribution env nd \<and>
    ctotal cs' c = ctotal cs c + (if asset_class_of env nd = c then contribution env nd else 0) \<and>
    stotal cs' c s = stotal cs c s + (if asset_class_of env nd = c \<and> asset_subclass_of env nd = s
            then contribution env nd else 0)"
    by (simp add: contribution_def totals_ensure)
next
  case (valued cc mv a)
  let ?c = "asset_class_of env nd" and ?s = "asset_subclass_of env nd"
  obtain tot subs st accts where pr: "map_of (abs_ensure ?c ?s cs) ?c = Some (tot, subs)"
    "map_of subs ?s = Some (st, accts)"
    using ensure_present by blast
  have "contribution env nd = mv"
    using valued by (simp add: contribution_def account_record_enc)
  then show "p' = p + contribution env nd \<and>
    ctotal cs' c = ctotal cs c + (if asset_class_of env nd = c then contribution env nd else 0) \<and>
    stotal cs' c s = stotal cs c s + (if asset_class_of env nd = c \<and> asset_subclass_of env nd = s
            then contribution env nd else 0)"
    using valued totals_add [OF pr] by (simp add: totals_ensure)
qed

lemma step_rec:
  assumes "abs_process_node env nd ((p, cs), errs) = Inr ((p', cs'), errs')"
  shows "name nd \<noteq> a \<Longrightarrow> rec_of cs' c s a = rec_of cs c s a"
    and "rec_of cs c s a \<noteq> None \<Longrightarrow> rec_of cs' c s a \<noteq> None"
    and "balance nd \<noteq> [] \<Longrightarrow> convert_cost env nd = Inr cc \<Longrightarrow> snd cc = operating_currency env \<Longrightarrow>
          \<exists>mv r. abs_account_record env nd (fst cc) = Inr (mv, r) \<and>
            rec_of cs' (asset_class_of env nd) (asset_subclass_of env nd) (name nd) = Some r"
  using assms
proof (atomize (full), cases rule: abs_step_cases)
  case empty
  then show "(name nd \<noteq> a \<longrightarrow> rec_of cs' c s a = rec_of cs c s a) \<and>
    (rec_of cs c s a \<noteq> None \<longrightarrow> rec_of cs' c s a \<noteq> None) \<and>
    (balance nd \<noteq> [] \<longrightarrow> convert_cost env nd = Inr cc \<longrightarrow> snd cc = operating_currency env \<longrightarrow>
      (\<exists>mv r. abs_account_record env nd (fst cc) = Inr (mv, r) \<and>
        rec_of cs' (asset_class_of env nd) (asset_subclass_of env nd) (name nd) = Some r))"
    by simp
next
  case (mismatch cc')
  then show "(name nd \<noteq> a \<longrightarrow> rec_of cs' c s a = rec_of cs c s a) \<and>
    (rec_of cs c s a \<noteq> None \<longrightarrow> rec_of cs' c s a \<noteq> None) \<and>
    (balance nd \<noteq> [] \<longrightarrow> convert_cost env nd = Inr cc \<longrightarrow> snd cc = operating_currency env \<longrightarrow>
      (\<exists>mv r. abs_account_record env nd (fst cc) = Inr (mv, r) \<and>
        rec_of cs' (asset_class_of env nd) (asset_subclass_of env nd) (name nd) = Some r))"
    by (auto simp: totals_ensure)
next
  case (valued cc' mv r)
  let ?c = "asset_class_of env nd" and ?s = "asset_subclass_of env nd"
  obtain tot subs st accts where pr: "map_of (abs_ensure ?c ?s cs) ?c = Some (tot, subs)"
    "map_of subs ?s = Some (st, accts)"
    using ensure_present by blast
  show "(name nd \<noteq> a \<longrightarrow> rec_of cs' c s a = rec_of cs c s a) \<and>
    (rec_of cs c s a \<noteq> None \<longrightarrow> rec_of cs' c s a \<noteq> None) \<and>
    (balance nd \<noteq> [] \<longrightarrow> convert_cost env nd = Inr cc \<longrightarrow> snd cc = operating_currency env \<longrightarrow>
      (\<exists>mv r. abs_account_record env nd (fst cc) = Inr (mv, r) \<and>
        rec_of cs' (asset_class_of env nd) (asset_subclass_of env nd) (name nd) = Some r))"
    using valued totals_add(3) [OF pr, of "name nd" mv r] by (cases r) (auto simp: totals_ensure)
qed

lemma step_errors:
  assumes "abs_process_node env nd ((p, cs), errs) = Inr ((p', cs'), errs')"
  shows "errs' = errs @ warning env nd"
  using assms by (cases rule: abs_step_cases) (simp_all add: warning_def)

lemma step_independent:
  assumes "abs_process_node env nd (s, errs) = Inr r"
  shows "\<exists>r'. abs_process_node env nd (s', errs') = Inr r'"
proof -
  obtain p cs p' cs' where "s = (p, cs)" "s' = (p', cs')"
    by (cases s; cases s') auto
  then show ?thesis
    using assms
    by (cases "convert_cost env nd"; cases "abs_account_record env nd (fst (projr (convert_cost env nd)))")
       (auto simp: abs_process_node_def Let_def split: if_splits)
qed

lemma for_each_append:
  "for_each body (xs @ ys) s = bind_err (for_each body xs s) (for_each body ys)"
  by (induction xs arbitrary: s) (auto simp: bind_err_def split: sum.splits)

lemma fold_independent:
  assumes "for_each (abs_process_node env) nodes st = Inr r"
  shows "\<exists>r'. for_each (abs_process_node env) nodes st' = Inr r'"
  using assms
proof (induction nodes arbitrary: st st')
  case Nil
  then show ?case by simp
next
  case (Cons nd nodes)
  then obtain st1 where 1: "abs_process_node env nd st = Inr st1"
    and 2: "for_each (abs_process_node env) nodes st1 = Inr r"
    by (auto simp: bind_err_Inr_iff)
  obtain st1' where "abs_process_node env nd st' = Inr st1'"
    using step_independent [of env nd "fst st" "snd st" st1 "fst st'" "snd st'"] 1 by auto
  then show ?case
    using Cons.IH [OF 2, of st1'] by simp
qed

lemma fold_invariants:
  assumes "for_each (abs_process_node env) nodes ((p, cs), errs) = Inr ((p', cs'), errs')"
  shows "good (p, cs) \<Longrightarrow> good (p', cs')"
    and "p' = p + (\<Sum>nd \<leftarrow> nodes. contribution env nd)"
    and "ctotal cs' c = ctotal cs c +
           (\<Sum>nd \<leftarrow> filter (\<lambda>nd. asset_class_of env nd = c) nodes. contribution env nd)"
    and "stotal cs' c s = stotal cs c s +
           (\<Sum>nd \<leftarrow> filter (\<lambda>nd. asset_class_of env nd = c \<and> asset_subclass_of env nd = s) nodes.
              contribution env nd)"
    and "errs' = errs @ concat (map (warning env) nodes)"
  using assms
proof (induction nodes arbitrary: p cs errs)
  case Nil
  {
    case 1 then show ?case by simp
  next
    case 2 then show ?case by simp
  next
    case 3 then show ?case by simp
  next
    case 4 then show ?case by simp
  next
    case 5 then show ?case by simp
  }
next
  case (Cons nd nodes)
  {
    case 1
    then obtain p1 cs1 errs1 where st: "abs_process_node env nd ((p, cs), errs) = Inr ((p1, cs1), errs1)"
      and r: "for_each (abs_process_node env) nodes ((p1, cs1), errs1) = Inr ((p', cs'), errs')"
      by (auto simp: bind_err_Inr_iff)
    then show ?case
      using Cons.IH(1) [OF _ r] step_good [OF st] 1 by simp
  next
    case 2
    then obtain p1 cs1 errs1 where st: "abs_process_node env nd ((p, cs), errs) = Inr ((p1, cs1), errs1)"
      and r: "for_each (abs_process_node env) nodes ((p1, cs1), errs1) = Inr ((p', cs'), errs')"
      by (auto simp: bind_err_Inr_iff)
    then show ?case
      using Cons.IH(2) [OF r] step_totals(1) [OF st] by simp
  next
    case 3
    then obtain p1 cs1 errs1 where st: "abs_process_node env nd ((p, cs), errs) = Inr ((p1, cs1), errs1)"
      and r: "for_each (abs_process_node env) nodes ((p1, cs1), errs1) = Inr ((p', cs'), errs')"
      by (auto simp: bind_err_Inr_iff)
    then show ?case
      using Cons.IH(3) [OF r] step_totals(2) [OF st, of c] by simp
  next
    case 4
    then obtain p1 cs1 errs1 where st: "abs_process_node env nd ((p, cs), errs) = Inr ((p1, cs1), errs1)"
      and r: "for_each (abs_process_node env) nodes ((p1, cs1), errs1) = Inr ((p', cs'), errs')"
      by (auto simp: bind_err_Inr_iff)
    then show ?case
      using Cons.IH(4) [OF r] step_totals(3) [OF st, of c s] by simp
  next
    case 5
    then obtain p1 cs1 errs1 where st: "abs_process_node env nd ((p, cs), errs) = Inr ((p1, cs1), errs1)"
      and r: "for_each (abs_process_node env) nodes ((p1, cs1), errs1) = Inr ((p', cs'), errs')"
      by (auto simp: bind_err_Inr_iff)
    then show ?case
      using Cons.IH(5) [OF r] step_errors [OF st] by simp
  }
qed

lemma item_enc_items:
  "item k (enc_items f xs) = (case map_of xs k of None \<Rightarrow> Leaf PNone | Some x \<Rightarrow> f x)"
  by (simp add: item_def getitem_enc_items split: option.splits)


lemma item_Leaf [simp]: "item k (Leaf v) = Leaf PNone"
  by (simp add: item_def)

lemma decimal_simps [simp]: "decimal (Leaf (PNum x)) = x" "decimal (Leaf PNone) = 0"
  by (simp_all add: decimal_def)

lemma item_fin_tree:
  "item ''portfolio_total'' (fin_tree (p, cs)) = Leaf (PNum p)"
  "item ''asset_classes'' (fin_tree (p, cs)) = enc_items (fin_class p) cs"
  by (simp_all add: item_def fin_tree_def)

lemma item_fin_class:
  "item ''portfolio_allocation'' (fin_class p (tot, subs)) = Leaf (PNum (pct tot p))"
  "item ''asset_class_total'' (fin_class p (tot, subs)) = Leaf (PNum tot)"
  "item ''asset_subclasses'' (fin_class p (tot, subs)) = enc_items (fin_sub p tot) subs"
  by (simp_all add: item_def fin_class_def)

lemma item_fin_sub:
  "item ''portfolio_allocation'' (fin_sub p ct (tot, accts)) = Leaf (PNum (pct tot p))"
  "item ''asset_class_allocation'' (fin_sub p ct (tot, accts)) = Leaf (PNum (pct tot ct))"
  "item ''asset_subclass_total'' (fin_sub p ct (tot, accts)) = Leaf (PNum tot)"
  "item ''accounts'' (fin_sub p ct (tot, accts)) = enc_items (fin_acct p ct tot) accts"
  by (simp_all add: item_def fin_sub_def)

lemma item_fin_acct:
  "item ''balance_market_value'' (fin_acct p ct st (bmv, igl, glp, lpd)) = Leaf (PNum bmv)"
  "item ''income_gain_loss'' (fin_acct p ct st (bmv, igl, glp, lpd)) = Leaf igl"
  "item ''gain_loss_percentage'' (fin_acct p ct st (bmv, igl, glp, lpd)) = Leaf glp"
  "item ''latest_price_date'' (fin_acct p ct st (bmv, igl, glp, lpd)) = Leaf lpd"
  "item ''portfolio_allocation'' (fin_acct p ct st (bmv, igl, glp, lpd)) = Leaf (PNum (pct bmv p))"
  "item ''asset_class_allocation'' (fin_acct p ct st (bmv, igl, glp, lpd)) = Leaf (PNum (pct bmv ct))"
  "item ''asset_subclass_allocation'' (fin_acct p ct st (bmv, igl, glp, lpd)) = Leaf (PNum (pct bmv st))"
  by (simp_all add: item_def fin_acct_def)

lemma class_total_fin:
  "decimal (item_at [''asset_classes'', c, ''asset_class_total''] (fin_tree (p, cs))) = ctotal cs c"
  by (cases "map_of cs c")
     (auto simp: item_fin_tree item_enc_items ctotal_def item_fin_class)

lemma subclass_total_fin:
  "decimal (item_at [''asset_classes'', c, ''asset_subclasses'', s, ''asset_subclass_total'']
      (fin_tree (p, cs))) = stotal cs c s"
proof (cases "map_of cs c")
  case None
  then show ?thesis
    by (simp add: item_fin_tree item_enc_items stotal_def)
next
  case (Some x)
  then show ?thesis
    by (cases x; cases "map_of (snd x) s")
       (auto simp: item_fin_tree item_enc_items stotal_def item_fin_class item_fin_sub)
qed

lemma record_fin:
  "item_at [''asset_classes'', c, ''asset_subclasses'', s, ''accounts'', a] (fin_tree (p, cs)) =
     (case rec_of cs c s a of None \<Rightarrow> Leaf PNone
      | Some r \<Rightarrow> fin_acct p (ctotal cs c) (stotal cs c s) r)"
proof (cases "map_of cs c")
  case None
  then show ?thesis
    by (simp add: item_fin_tree item_enc_items rec_of_def)
next
  case (Some x)
  then show ?thesis
    by (cases x; cases "map_of (snd x) s")
       (auto simp: item_fin_tree item_enc_items rec_of_def ctotal_def stotal_def item_fin_class
          item_fin_sub split: option.splits)
qed

lemma portfolio_data_Inr:
  assumes "portfolio_data env nodes = Inr (t, tys, errs)"
  obtains p cs where "for_each (abs_process_node env) nodes ((0, []), []) = Inr ((p, cs), errs)"
    and "t = fin_tree (p, cs)" and "tys = types"
  using assms unfolding portfolio_data_abs by (auto simp: bind_err_Inr_iff)




lemma items_Leaf [simp]: "items (Leaf v) = []"
  by (simp add: items_def)




lemma insert_node_runs:
  assumes run: "for_each (abs_process_node env) (pre @ post) st = Inr r'"
    and step: "\<And>st1. \<exists>st2. abs_process_node env nd st1 = Inr st2"
  shows "\<exists>r. for_each (abs_process_node env) (pre @ nd # post) st = Inr r"
proof -
  obtain st1 where 1: "for_each (abs_process_node env) pre st = Inr st1"
    and 2: "for_each (abs_process_node env) post st1 = Inr r'"
    using run by (auto simp: for_each_append bind_err_Inr_iff)
  obtain st2 where 3: "abs_process_node env nd st1 = Inr st2"
    using step by blast
  obtain r where "for_each (abs_process_node env) post st2 = Inr r"
    using fold_independent [OF 2] by blast
  then show ?thesis
    using 1 3 by (simp add: for_each_append)
qed

lemma mismatch_step:
  assumes "balance nd \<noteq> []" and "convert_cost env nd = Inr cc"
    and "snd cc \<noteq> operating_currency env"
  shows "\<exists>st2. abs_process_node env nd st1 = Inr st2"
  using assms by (cases st1) (auto simp: abs_process_node_def Let_def)

lemma message_inject:
  "operating_currency_message env a = operating_currency_message env b \<Longrightarrow> a = b"
  by (simp add: operating_currency_message_def)

lemma fold_record:
  assumes "for_each (abs_process_node env) nodes ((p, cs), errs) = Inr ((p', cs'), errs')"
    and "\<forall>m \<in> set nodes. name m = name nd \<longrightarrow> m = nd"
    and "balance nd \<noteq> []" and "convert_cost env nd = Inr cc"
    and "snd cc = operating_currency env"
    and "abs_account_record env nd (fst cc) = Inr (mv, r)"
    and "nd \<in> set nodes \<or>
         rec_of cs (asset_class_of env nd) (asset_subclass_of env nd) (name nd) = Some r"
  shows "rec_of cs' (asset_class_of env nd) (asset_subclass_of env nd) (name nd) = Some r"
  using assms(1,2,7)
proof (induction nodes arbitrary: p cs errs)
  case Nil
  then show ?case by simp
next
  case (Cons m nodes)
  then obtain p1 cs1 errs1 where st: "abs_process_node env m ((p, cs), errs) = Inr ((p1, cs1), errs1)"
    and run: "for_each (abs_process_node env) nodes ((p1, cs1), errs1) = Inr ((p', cs'), errs')"
    by (auto simp: bind_err_Inr_iff)
  have u: "\<forall>m \<in> set nodes. name m = name nd \<longrightarrow> m = nd"
    using Cons.prems(2) by simp
  show ?case
  proof (cases "m = nd")
    case True
    then have "rec_of cs1 (asset_class_of env nd) (asset_subclass_of env nd) (name nd) = Some r"
      using step_rec(3) [OF st, of cc] assms(3-6) by auto
    then show ?thesis
      using Cons.IH [OF run u] by simp
  next
    case False
    then have "name m \<noteq> name nd"
      using Cons.prems(2) by auto
    then have "rec_of cs1 (asset_class_of env nd) (asset_subclass_of env nd) (name nd)
        = rec_of cs (asset_class_of env nd) (asset_subclass_of env nd) (name nd)"
      using step_rec(1) [OF st] by simp
    then show ?thesis
      using Cons.IH [OF run u] Cons.prems(3) False by auto
  qed
qed

subsection \<open>The example ledger\<close>

lemma example_run:
  "portfolio_data example_env example_nodes =
     Inr (example_tree, types, [''account Assets:Euro has balances not in operating currency USD''])"
  by code_simp

lemma example_run_valued:
  "portfolio_data example_env [node_stock, node_bond, node_gift] =
     Inr (example_tree_valued, types, [])"
  by code_simp

subsection \<open>The portfolio tree\<close>





text \<open>
  Claim C4.  Let an account have a balance and a cost in a currency other than the
  operating currency, of an amount that is not zero.  When the computation on a list of
  nodes without the account succeeds, so does the computation with the account anywhere in
  the list; the list of errors is the same with the warning
  \<^verbatim>\<open>account <name> has balances not in operating currency <X>\<close> inserted; and the
  portfolio total, the total of every class and the total of every subclass are the same
  (a class or subclass that is not in a tree counting as 0).
\<close>

theorem mismatched_currency_account:
  assumes "portfolio_data env (pre @ post) = Inr (t', tys, errs')"
    and "balance nd \<noteq> []"
    and "convert_cost env nd = Inr (amount, cur)"
    and "cur \<noteq> operating_currency env"
    and "amount \<noteq> 0"
  shows "\<exists>t errs. portfolio_data env (pre @ nd # post) = Inr (t, tys, errs)
    \<and> (\<exists>e1 e2. errs' = e1 @ e2 \<and> errs = e1 @ [operating_currency_message env (name nd)] @ e2)
    \<and> decimal (item ''portfolio_total'' t) = decimal (item ''portfolio_total'' t')
    \<and> (\<forall>c. decimal (item_at [''asset_classes'', c, ''asset_class_total''] t) =
             decimal (item_at [''asset_classes'', c, ''asset_class_total''] t'))
    \<and> (\<forall>c s. decimal (item_at [''asset_classes'', c, ''asset_subclasses'', s,
                                ''asset_subclass_total''] t) =
               decimal (item_at [''asset_classes'', c, ''asset_subclasses'', s,
                                ''asset_subclass_total''] t'))"
proof -
  obtain p' cs' where run': "for_each (abs_process_node env) (pre @ post) ((0, []), []) = Inr ((p', cs'), errs')"
    and t': "t' = fin_tree (p', cs')" and tys: "tys = types"
    using assms(1) by (rule portfolio_data_Inr)
  have "\<exists>r. for_each (abs_process_node env) (pre @ nd # post) ((0, []), []) = Inr r"
    using run' mismatch_step [of nd env "(amount, cur)"] assms(2-4)
    by (intro insert_node_runs) auto
  then obtain p cs errs where
    run: "for_each (abs_process_node env) (pre @ nd # post) ((0, []), []) = Inr ((p, cs), errs)"
    by (metis surj_pair)
  have c0: "contribution env nd = 0"
    using assms(2-4) by (simp add: contribution_def)
  have w: "warning env nd = [operating_currency_message env (name nd)]"
    using assms(2-4) by (simp add: warning_def)
  have 1: "portfolio_data env (pre @ nd # post) = Inr (fin_tree (p, cs), tys, errs)"
    by (simp add: portfolio_data_abs run tys)
  have 2: "errs' = concat (map (warning env) pre) @ concat (map (warning env) post)"
    "errs = concat (map (warning env) pre) @ [operating_currency_message env (name nd)]
       @ concat (map (warning env) post)"
    using fold_invariants(5) [OF run'] fold_invariants(5) [OF run] w by simp_all
  have 3: "p = p'"
    using fold_invariants(2) [OF run'] fold_invariants(2) [OF run] c0 by simp
  have 4: "ctotal cs c = ctotal cs' c" for c
    using fold_invariants(3) [OF run', of c] fold_invariants(3) [OF run, of c] c0 by simp
  have 5: "stotal cs c s = stotal cs' c s" for c s
    using fold_invariants(4) [OF run', of c s] fold_invariants(4) [OF run, of c s] c0 by simp
  show ?thesis
    apply (rule exI [of _ "fin_tree (p, cs)"])
    apply (rule exI [of _ errs])
    using 1 2 3 4 5 unfolding t' class_total_fin subclass_total_fin
    by (auto simp: item_fin_tree)
qed

theorem mismatched_currency_account_witness:
  "\<exists>t errs. portfolio_data example_env ([node_stock, node_bond, node_gift] @ node_euro # [])
        = Inr (t, types, errs)
    \<and> (\<exists>e1 e2. [] = e1 @ e2 \<and>
          errs = e1 @ [operating_currency_message example_env (name node_euro)] @ e2)
    \<and> decimal (item ''portfolio_total'' t) = decimal (item ''portfolio_total'' example_tree_valued)
    \<and> (\<forall>c. decimal (item_at [''asset_classes'', c, ''asset_class_total''] t) =
             decimal (item_at [''asset_classes'', c, ''asset_class_total''] example_tree_valued))
    \<and> (\<forall>c s. decimal (item_at [''asset_classes'', c, ''asset_subclasses'', s,
                                ''asset_subclass_total''] t) =
               decimal (item_at [''asset_classes'', c, ''asset_subclasses'', s,
                                ''asset_subclass_total''] example_tree_valued))"
proof -
  have 1: "portfolio_data example_env ([node_stock, node_bond, node_gift] @ []) =
     Inr (example_tree_valued, types, [])"
    using example_run_valued by simp
  have 2: "balance node_euro \<noteq> []" "convert_cost example_env node_euro = Inr (5, ''EUR'')"
    "''EUR'' \<noteq> operating_currency example_env" "(5::rat) \<noteq> 0"
    by code_simp+
  show ?thesis
    using mismatched_currency_account [OF 1 2] .
qed

text \<open>
  Claim C5.  For an account with a balance whose cost is in the operating currency and for
  which no latest price is known, no other node having its name, the record of the account
  in the returned tree has the cost as its market value, and \<^verbatim>\<open>None\<close> as its gain/loss,
  its gain/loss percentage and its latest price date; and the list of errors has no warning
  for the account.
\<close>

theorem no_price_record:
  assumes "portfolio_data env nodes = Inr (t, tys, errs)"
    and "nd \<in> set nodes"
    and "\<forall>m \<in> set nodes. name m = name nd \<longrightarrow> m = nd"
    and "balance nd \<noteq> []"
    and "convert_cost env nd = Inr (cost, operating_currency env)"
    and "no_known_price env nd"
  shows "item ''balance_market_value'' (item_at [''asset_classes'', asset_class_of env nd,
             ''asset_subclasses'', asset_subclass_of env nd, ''accounts'', name nd] t)
           = Leaf (PNum cost)
    \<and> item ''income_gain_loss'' (item_at [''asset_classes'', asset_class_of env nd,
             ''asset_subclasses'', asset_subclass_of env nd, ''accounts'', name nd] t)
           = Leaf PNone
    \<and> item ''gain_loss_percentage'' (item_at [''asset_classes'', asset_class_of env nd,
             ''asset_subclasses'', asset_subclass_of env nd, ''accounts'', name nd] t)
           = Leaf PNone
    \<and> item ''latest_price_date'' (item_at [''asset_classes'', asset_class_of env nd,
             ''asset_subclasses'', asset_subclass_of env nd, ''accounts'', name nd] t)
           = Leaf PNone
    \<and> operating_currency_message env (name nd) \<notin> set errs"
proof -
  obtain p cs where run: "for_each (abs_process_node env) nodes ((0, []), []) = Inr ((p, cs), errs)"
    and t: "t = fin_tree (p, cs)"
    using assms(1) by (rule portfolio_data_Inr)
  have r: "abs_account_record env nd cost = Inr (cost, (cost, PNone, PNone, PNone))"
    using assms(6)
    by (cases "account_latest_price env nd")
       (auto simp: no_known_price_def abs_account_record_def)
  have "rec_of cs (asset_class_of env nd) (asset_subclass_of env nd) (name nd)
      = Some (cost, PNone, PNone, PNone)"
    using fold_record [OF run assms(3,4), of "(cost, operating_currency env)" cost
        "(cost, PNone, PNone, PNone)"] assms(2,5) r
    by simp
  then have 1: "item_at [''asset_classes'', asset_class_of env nd,
             ''asset_subclasses'', asset_subclass_of env nd, ''accounts'', name nd] t
      = fin_acct p (ctotal cs (asset_class_of env nd))
          (stotal cs (asset_class_of env nd) (asset_subclass_of env nd))
          (cost, PNone, PNone, PNone)"
    unfolding t record_fin by simp
  have e: "errs = concat (map (warning env) nodes)"
    using fold_invariants(5) [OF run] by simp
  have 2: "operating_currency_message env (name nd) \<notin> set errs"
  proof
    assume "operating_currency_message env (name nd) \<in> set errs"
    then obtain m where m: "m \<in> set nodes"
      and w: "operating_currency_message env (name nd) \<in> set (warning env m)"
      unfolding e by auto
    then have "name m = name nd"
      by (auto simp: warning_def dest: message_inject split: if_splits sum.splits)
    then have "m = nd"
      using assms(3) m by blast
    then show False
      using w assms(4,5) by (simp add: warning_def)
  qed
  show ?thesis
    unfolding 1 using 2 by (simp add: item_fin_acct)
qed

theorem no_price_record_witness:
  "item ''balance_market_value'' (item_at [''asset_classes'', ''bond'',
             ''asset_subclasses'', ''gov'', ''accounts'', ''Assets:Bond''] example_tree)
           = Leaf (PNum 300)
    \<and> item ''income_gain_loss'' (item_at [''asset_classes'', ''bond'',
             ''asset_subclasses'', ''gov'', ''accounts'', ''Assets:Bond''] example_tree)
           = Leaf PNone
    \<and> item ''gain_loss_percentage'' (item_at [''asset_classes'', ''bond'',
             ''asset_subclasses'', ''gov'', ''accounts'', ''Assets:Bond''] example_tree)
           = Leaf PNone
    \<and> item ''latest_price_date'' (item_at [''asset_classes'', ''bond'',
             ''asset_subclasses'', ''gov'', ''accounts'', ''Assets:Bond''] example_tree)
           = Leaf PNone
    \<and> operating_currency_message example_env ''Assets:Bond'' \<notin>
          set [''account Assets:Euro has balances not in operating currency USD'']"
proof -
  have 1: "node_bond \<in> set example_nodes"
    "\<forall>m \<in> set example_nodes. name m = name node_bond \<longrightarrow> m = node_bond"
    "balance node_bond \<noteq> []"
    "convert_cost example_env node_bond = Inr (300, operating_currency example_env)"
    "no_known_price example_env node_bond"
    by code_simp+
  have 2: "asset_class_of example_env node_bond = ''bond''"
    "asset_subclass_of example_env node_bond = ''gov''" "name node_bond = ''Assets:Bond''"
    by code_simp+
  show ?thesis
    using no_price_record [OF example_run 1] unfolding 2 .
qed

text \<open>
  Claim C6.  An account of cost 0 without a known latest price raises no exception: when
  the computation on a list of nodes without the account returns, so does the computation
  with the account anywhere in the list, and the record of the account is made without the
  division by the cost, its gain/loss percentage being \<^verbatim>\<open>None\<close>.
\<close>

theorem zero_cost_without_price:
  assumes "portfolio_data env (pre @ post) = Inr r'"
    and "convert_cost env nd = Inr (0, cur)"
    and "no_known_price env nd"
  shows "(\<exists>r. portfolio_data env (pre @ nd # post) = Inr r)
    \<and> account_record env nd 0 =
        Inr (0, Dict [(''balance_market_value'', ZERO), (''income_gain_loss'', Leaf PNone),
                      (''gain_loss_percentage'', Leaf PNone),
                      (''latest_price_date'', Leaf PNone)])"
proof -
  obtain st' where run': "for_each (abs_process_node env) (pre @ post) ((0, []), []) = Inr st'"
    using assms(1) unfolding portfolio_data_abs by (auto simp: bind_err_Inr_iff)
  have r: "abs_account_record env nd 0 = Inr (0, (0, PNone, PNone, PNone))"
    using assms(3)
    by (cases "account_latest_price env nd")
       (auto simp: no_known_price_def abs_account_record_def)
  have "\<exists>st2. abs_process_node env nd st1 = Inr st2" for st1
    using assms(2) r by (cases st1) (auto simp: abs_process_node_def Let_def)
  then have "\<exists>r. for_each (abs_process_node env) (pre @ nd # post) ((0, []), []) = Inr r"
    using run' by (intro insert_node_runs) auto
  then have "\<exists>r. portfolio_data env (pre @ nd # post) = Inr r"
    unfolding portfolio_data_abs by (auto simp: bind_err_Inr_iff)
  moreover have "account_record env nd 0 =
        Inr (0, Dict [(''balance_market_value'', ZERO), (''income_gain_loss'', Leaf PNone),
                      (''gain_loss_percentage'', Leaf PNone),
                      (''latest_price_date'', Leaf PNone)])"
    by (simp add: account_record_enc r enc_acct_def)
  ultimately show ?thesis
    by blast
qed

theorem zero_cost_without_price_witness:
  "(\<exists>r. portfolio_data example_env ([node_stock, node_bond] @ node_gift # []) = Inr r)
    \<and> account_record example_env node_gift 0 =
        Inr (0, Dict [(''balance_market_value'', ZERO), (''income_gain_loss'', Leaf PNone),
                      (''gain_loss_percentage'', Leaf PNone),
                      (''latest_price_date'', Leaf PNone)])"
proof -
  have "\<not> isl (portfolio_data example_env ([node_stock, node_bond] @ []))"
    by code_simp
  then obtain r' where 1: "portfolio_data example_env ([node_stock, node_bond] @ []) = Inr r'"
    by (cases "portfolio_data example_env ([node_stock, node_bond] @ [])") auto
  have 2: "convert_cost example_env node_gift = Inr (0, ''USD'')"
    "no_known_price example_env node_gift"
    by code_simp+
  show ?thesis
    using zero_cost_without_price [OF 1 2] .
qed

subsection \<open>The configured views\<close>

lemma views_loop_append:
  "views_loop env sel (pre @ rest) portfolios h =
     (case views_loop env sel pre portfolios h of
        (portfolios', h', None) \<Rightarrow> views_loop env sel rest portfolios' h'
      | (portfolios', h', Some e) \<Rightarrow> (portfolios', h', Some e))"
  by (induction pre arbitrary: portfolios h) (auto split: sum.splits prod.splits option.splits)

lemma view_unknown_key:
  assumes "fst option \<noteq> ''account_name_pattern''"
    and "fst option \<noteq> ''account_open_metadata_pattern''"
  shows "view env sel option h = Inl FavaAPIError"
  using assms by (simp add: view_def)

text \<open>
  Claim C8, as the code has it.  When an entry of the configuration has an unrecognized
  key and the views of the entries before it are all computed, \<^verbatim>\<open>portfolio_accounts\<close>
  prints the traceback of the \<^verbatim>\<open>FavaAPIError\<close> and returns the views of the entries
  before it, and nothing else: the failing view and every view configured after it are not
  in the returned list.
\<close>

theorem views_before_failure:
  assumes "fst option \<noteq> ''account_name_pattern''"
    and "fst option \<noteq> ''account_open_metadata_pattern''"
    and "portfolio_accounts env sel pre = (portfolios, h, None)"
  shows "portfolio_accounts env sel (pre @ option # post) = (portfolios, h, Some FavaAPIError)"
  using assms(3) view_unknown_key [OF assms(1,2)]
  by (simp add: portfolio_accounts_def views_loop_append)

theorem views_before_failure_witness:
  "portfolio_accounts example_env example_selection
     ([(''account_name_pattern'', Str ''Stock'')] @ (''no_such_rule'', Str ''Stock'') #
        [(''account_name_pattern'', Str ''Stock'')])
   = (fst (portfolio_accounts example_env example_selection
             [(''account_name_pattern'', Str ''Stock'')]),
      fst (snd (portfolio_accounts example_env example_selection
             [(''account_name_pattern'', Str ''Stock'')])),
      Some FavaAPIError)
   \<and> length (fst (portfolio_accounts example_env example_selection
          [(''account_name_pattern'', Str ''Stock'')])) = 1"
proof -
  let ?run = "portfolio_accounts example_env example_selection
      [(''account_name_pattern'', Str ''Stock'')]"
  have 1: "fst (''no_such_rule'', Str ''Stock'') \<noteq> ''account_name_pattern''"
    "fst (''no_such_rule'', Str ''Stock'') \<noteq> ''account_open_metadata_pattern''"
    by simp_all
  have "case ?run of (portfolios, h, e) \<Rightarrow> e = None \<and> length portfolios = 1"
    by code_simp
  then have 2: "?run = (fst ?run, fst (snd ?run), None)" and 3: "length (fst ?run) = 1"
    by (auto split: prod.splits)
  show ?thesis
    using views_before_failure [OF 1 2] 3 by simp
qed

text \<open>
  The claim as stated fails: a view that is computed when it is configured alone is missing
  from the result when an entry with an unrecognized key stands before it.
\<close>

theorem later_views_dropped:
  "fst (portfolio_accounts example_env example_selection
          [(''no_such_rule'', Str ''Stock''), (''account_name_pattern'', Str ''Stock'')]) = []
   \<and> length (fst (portfolio_accounts example_env example_selection
          [(''account_name_pattern'', Str ''Stock'')])) = 1"
  by code_simp

subsection \<open>The commodity of a node\<close>

lemma scan_currencies_same:
  "\<forall>c \<in> set cs. c = r \<Longrightarrow> scan_currencies r cs = r"
  by (induction cs) auto

lemma scan_currencies_mixed:
  "scan_currencies r cs \<noteq> r \<Longrightarrow> \<exists>c \<in> set cs. c \<noteq> r"
  by (induction cs) (auto split: if_splits)

text \<open>
  Claim C10.  For a node with an empty balance \<open>node_commodity\<close> returns the empty string,
  which is none of the sentinel classifications; when every balance key carries the
  currency \<open>c\<close> it returns \<open>c\<close>; and when it returns \<open>''mixed_commodities''\<close>, that not
  being itself the currency of a key, two balance keys carry different currencies.
\<close>

theorem node_commodity_cases:
  "(balance nd = [] \<longrightarrow>
      node_commodity nd = '''' \<and>
      node_commodity nd \<notin> {''mixed_commodities'', ''noclass'', ''nosubclass''})
   \<and> (balance nd \<noteq> [] \<and> (\<forall>k \<in> set (balance nd). fst (fst k) = c) \<longrightarrow>
         node_commodity nd = c)
   \<and> (node_commodity nd = ''mixed_commodities'' \<and>
      ''mixed_commodities'' \<notin> (\<lambda>k. fst (fst k)) ` set (balance nd) \<longrightarrow>
         (\<exists>k1 \<in> set (balance nd). \<exists>k2 \<in> set (balance nd).
            fst k1 \<noteq> fst k2 \<and> fst (fst k1) \<noteq> fst (fst k2)))"
proof (intro conjI impI)
  assume "balance nd = []"
  then show "node_commodity nd = ''''"
    by (simp add: node_commodity_def)
  then show "node_commodity nd \<notin> {''mixed_commodities'', ''noclass'', ''nosubclass''}"
    by simp
next
  assume a: "balance nd \<noteq> [] \<and> (\<forall>k \<in> set (balance nd). fst (fst k) = c)"
  then obtain k ks where b: "balance nd = k # ks"
    by (cases "balance nd") auto
  with a have "fst (fst k) = c"
    by simp
  moreover from a have "\<forall>x \<in> set (map (\<lambda>(cost, _). fst cost) (balance nd)). x = c"
    by (auto simp: case_prod_beta)
  ultimately show "node_commodity nd = c"
    using b scan_currencies_same [of "map (\<lambda>(cost, _). fst cost) (balance nd)" c]
    by (simp add: node_commodity_def case_prod_beta)
next
  assume a: "node_commodity nd = ''mixed_commodities'' \<and>
      ''mixed_commodities'' \<notin> (\<lambda>k. fst (fst k)) ` set (balance nd)"
  then have ne: "balance nd \<noteq> []"
    by (auto simp: node_commodity_def)
  then obtain k ks where b: "balance nd = k # ks"
    by (cases "balance nd") auto
  let ?cs = "map (\<lambda>(cost, _). fst cost) (balance nd)"
  have r: "hd ?cs = fst (fst k)"
    using b by (simp add: case_prod_beta)
  from a b have "fst (fst k) \<noteq> ''mixed_commodities''"
    by auto
  with a ne r have "scan_currencies (fst (fst k)) ?cs \<noteq> fst (fst k)"
    by (simp add: node_commodity_def)
  then obtain c' where "c' \<in> set ?cs" "c' \<noteq> fst (fst k)"
    using scan_currencies_mixed by blast
  then obtain k2 where "k2 \<in> set (balance nd)" "fst (fst k2) \<noteq> fst (fst k)"
    by (auto simp: case_prod_beta)
  moreover have "k \<in> set (balance nd)"
    using b by simp
  ultimately show "\<exists>k1 \<in> set (balance nd). \<exists>k2 \<in> set (balance nd).
      fst k1 \<noteq> fst k2 \<and> fst (fst k1) \<noteq> fst (fst k2)"
    by (metis (no_types))
qed

theorem node_commodity_cases_witness:
  "node_commodity \<lparr>name = ''Assets:A'', balance = []\<rparr> = ''''
   \<and> node_commodity \<lparr>name = ''Assets:B'',
        balance = [((''USD'', None), 1), ((''USD'', Some (2, ''EUR'')), 3)]\<rparr> = ''USD''
   \<and> (\<exists>k1 \<in> set [((''USD'', None), 1::rat), ((''EUR'', None), 2)].
       \<exists>k2 \<in> set [((''USD'', None), 1::rat), ((''EUR'', None), 2)].
          fst k1 \<noteq> fst k2 \<and> fst (fst k1) \<noteq> fst (fst k2))"
  using node_commodity_cases [of "\<lparr>name = ''Assets:A'', balance = []\<rparr>" "''''"]
    node_commodity_cases [of "\<lparr>name = ''Assets:B'',
        balance = [((''USD'', None), 1), ((''USD'', Some (2, ''EUR'')), 3)]\<rparr>" "''USD''"]
    node_commodity_cases [of "\<lparr>name = ''Assets:C'',
        balance = [((''USD'', None), 1), ((''EUR'', None), 2)]\<rparr>" "''''"]
  by (simp add: node_commodity_def)

end
